theory Spec2Isabelle
  imports Complex_Main "HOL-Library.Log_Nat"
begin

section \<open>JavaScript numbers\<close>

text \<open>
  Every numeric field of the program is a JavaScript \<^verbatim>\<open>number\<close>. The timeline starts with
  \<^verbatim>\<open>maxPosition: Infinity\<close>, the minimap halves the zoom, and \<^verbatim>\<open>Math.max()\<close> of no
  arguments is \<^verbatim>\<open>-Infinity\<close>, so the model keeps the two infinities and NaN apart from the
  finite values. A finite double is the real number it denotes, and every arithmetic
  operation rounds its exact result to a double again (\<open>round_double\<close> below). The sign of
  zero is not kept: \<^verbatim>\<open>-0\<close> and \<^verbatim>\<open>0\<close> are one value, as they are for \<^verbatim>\<open>===\<close>, \<^verbatim>\<open><\<close> and
  \<^verbatim>\<open>Math.floor\<close> of a nonzero number.
\<close>

datatype jsnum = NaN | NegInf | Fin real | PosInf

text \<open>
  Rounding to the nearest IEEE 754 binary64 value, ties to the even significand.
  \<open>floor_log2 x\<close> is the binary exponent of a positive \<open>x\<close>, the \<open>k\<close> with
  \<open>2 ^ k \<le> x < 2 ^ (k + 1)\<close>. A double with exponent \<open>k\<close> is a multiple of \<open>2 ^ (k - 52)\<close> (53 significant
  bits); below \<open>2 ^ (- 1022)\<close> the doubles are the multiples of \<open>2 ^ (- 1074)\<close> (subnormal numbers); a
  result that rounds to \<open>2 ^ 1024\<close> or beyond is an infinity.
\<close>

definition floor_log2 :: "real \<Rightarrow> int" where
  "floor_log2 x = (if 1 \<le> x then bitlen \<lfloor>x\<rfloor> - 1 else - bitlen (\<lceil>1 / x\<rceil> - 1))"

definition round_ties_even :: "real \<Rightarrow> int" where
  "round_ties_even y =
     (let f = \<lfloor>y\<rfloor>; d = y - of_int f
      in if d < 1 / 2 then f else if 1 / 2 < d then f + 1 else if even f then f else f + 1)"

definition round_double :: "real \<Rightarrow> jsnum" where
  "round_double x =
     (if x = 0 then Fin 0
      else (let e = max (floor_log2 \<bar>x\<bar>) (- 1022) - 52;
                r = of_int (round_ties_even (x / 2 powi e)) * 2 powi e
            in if 2 ^ 1024 \<le> \<bar>r\<bar> then (if x < 0 then NegInf else PosInf) else Fin r))"

text \<open>\<^verbatim>\<open>a < b\<close>: false as soon as one side is NaN.\<close>

fun js_lt :: "jsnum \<Rightarrow> jsnum \<Rightarrow> bool" where
  "js_lt NaN b = False"
| "js_lt a NaN = False"
| "js_lt (Fin a) (Fin b) = (a < b)"
| "js_lt NegInf NegInf = False"
| "js_lt NegInf b = True"
| "js_lt a NegInf = False"
| "js_lt PosInf b = False"
| "js_lt a PosInf = True"

text \<open>\<^verbatim>\<open>a <= b\<close>.\<close>

definition js_le :: "jsnum \<Rightarrow> jsnum \<Rightarrow> bool" where
  "js_le a b = (a \<noteq> NaN \<and> b \<noteq> NaN \<and> (js_lt a b \<or> a = b))"

text \<open>\<^verbatim>\<open>Math.max(a, b)\<close> and \<^verbatim>\<open>Math.min(a, b)\<close>: NaN when an argument is NaN.\<close>

definition js_max :: "jsnum \<Rightarrow> jsnum \<Rightarrow> jsnum" where
  "js_max a b = (if a = NaN \<or> b = NaN then NaN else if js_lt a b then b else a)"

definition js_min :: "jsnum \<Rightarrow> jsnum \<Rightarrow> jsnum" where
  "js_min a b = (if a = NaN \<or> b = NaN then NaN else if js_lt b a then b else a)"

text \<open>
  \<^verbatim>\<open>a + b\<close>, \<^verbatim>\<open>-a\<close> and \<^verbatim>\<open>a - b\<close>: the sum of two finite numbers is rounded and may
  overflow to an infinity; opposite infinities add up to NaN.
\<close>

fun js_add :: "jsnum \<Rightarrow> jsnum \<Rightarrow> jsnum" where
  "js_add NaN b = NaN"
| "js_add a NaN = NaN"
| "js_add (Fin a) (Fin b) = round_double (a + b)"
| "js_add PosInf NegInf = NaN"
| "js_add NegInf PosInf = NaN"
| "js_add PosInf b = PosInf"
| "js_add NegInf b = NegInf"
| "js_add (Fin a) b = b"

fun js_neg :: "jsnum \<Rightarrow> jsnum" where
  "js_neg NaN = NaN"
| "js_neg NegInf = PosInf"
| "js_neg (Fin a) = Fin (- a)"
| "js_neg PosInf = NegInf"

definition js_sub :: "jsnum \<Rightarrow> jsnum \<Rightarrow> jsnum" where
  "js_sub a b = js_add a (js_neg b)"

text \<open>
  \<^verbatim>\<open>a * b\<close> and \<^verbatim>\<open>a / b\<close>: a finite product or quotient is rounded; zero times an
  infinity, a quotient of infinities and \<^verbatim>\<open>0 / 0\<close> are NaN; a nonzero finite value over zero
  is an infinity of its sign.
\<close>

definition js_sign :: "jsnum \<Rightarrow> int" where
  "js_sign a = (case a of NaN \<Rightarrow> 0 | NegInf \<Rightarrow> - 1 | PosInf \<Rightarrow> 1
     | Fin r \<Rightarrow> (if r < 0 then - 1 else if r = 0 then 0 else 1))"

definition js_inf :: "int \<Rightarrow> jsnum" where
  "js_inf sg = (if sg = 0 then NaN else if sg < 0 then NegInf else PosInf)"

fun js_mul :: "jsnum \<Rightarrow> jsnum \<Rightarrow> jsnum" where
  "js_mul NaN b = NaN"
| "js_mul a NaN = NaN"
| "js_mul (Fin a) (Fin b) = round_double (a * b)"
| "js_mul a b = js_inf (js_sign a * js_sign b)"

fun js_div :: "jsnum \<Rightarrow> jsnum \<Rightarrow> jsnum" where
  "js_div NaN b = NaN"
| "js_div a NaN = NaN"
| "js_div (Fin a) (Fin b) = (if b = 0 then js_inf (js_sign (Fin a)) else round_double (a / b))"
| "js_div (Fin a) b = Fin 0"
| "js_div a (Fin b) = js_inf (js_sign a * (if b < 0 then - 1 else 1))"
| "js_div a b = NaN"

text \<open>\<^verbatim>\<open>Math.floor\<close> and \<^verbatim>\<open>Math.ceil\<close> leave NaN and the infinities as they are.\<close>

fun js_floor :: "jsnum \<Rightarrow> jsnum" where
  "js_floor (Fin a) = Fin (of_int \<lfloor>a\<rfloor>)"
| "js_floor a = a"

fun js_ceil :: "jsnum \<Rightarrow> jsnum" where
  "js_ceil (Fin a) = Fin (of_int \<lceil>a\<rceil>)"
| "js_ceil a = a"

definition is_fin :: "jsnum \<Rightarrow> bool" where
  "is_fin a = (case a of Fin r \<Rightarrow> True | _ \<Rightarrow> False)"

text \<open>
  The values of the type \<^verbatim>\<open>number\<close>: NaN, the infinities, and the reals that are doubles,
  which rounding leaves as they are.
\<close>

definition js_number :: "jsnum \<Rightarrow> bool" where
  "js_number a = (case a of Fin r \<Rightarrow> round_double r = Fin r | _ \<Rightarrow> True)"

section \<open>TimelineService: the shared viewport state\<close>

text \<open>
  The service holds one \<^verbatim>\<open>TimelineState\<close> signal (\<^verbatim>\<open>zoom\<close>, \<^verbatim>\<open>position\<close>,
  \<^verbatim>\<open>maxPosition\<close>) and the \<^verbatim>\<open>highlightedRange\<close> signal; the record holds the four values.
  A highlight is the pair of its \<^verbatim>\<open>start\<close> and \<^verbatim>\<open>end\<close>; every caller passes cell indices,
  so the two are integers.
\<close>

record TimelineService =
  zoom :: jsnum
  position :: jsnum
  maxPosition :: jsnum
  highlightedRange :: "(int \<times> int) option"

definition initialTimeline :: TimelineService where
  "initialTimeline =
     \<lparr>zoom = Fin 100, position = Fin 0, maxPosition = PosInf, highlightedRange = None\<rparr>"

definition setPosition :: "jsnum \<Rightarrow> TimelineService \<Rightarrow> TimelineService" where
  "setPosition p s =
     (let viewportInBases = zoom s;
          maxAllowedStart = js_max (Fin 0) (js_sub (maxPosition s) viewportInBases);
          clampedPosition = js_min (js_max (Fin 0) p) maxAllowedStart
      in s\<lparr>position := clampedPosition\<rparr>)"

definition setMaxPosition :: "jsnum \<Rightarrow> TimelineService \<Rightarrow> TimelineService" where
  "setMaxPosition mx s =
     (if js_le mx (Fin 0) then s
      else (let s1 = s\<lparr>maxPosition := mx\<rparr> in setPosition (position s1) s1))"

definition setZoom :: "jsnum \<Rightarrow> TimelineService \<Rightarrow> TimelineService" where
  "setZoom z s = (let s1 = s\<lparr>zoom := js_max (Fin 1) z\<rparr> in setPosition (position s1) s1)"

definition setRange :: "jsnum \<Rightarrow> jsnum \<Rightarrow> TimelineService \<Rightarrow> TimelineService" where
  "setRange start end' s =
     (let rangeSize = js_max (Fin 1) (js_sub end' start);
          s1 = s\<lparr>zoom := rangeSize, position := start\<rparr>
      in setPosition (position s1) s1)"

definition moveBy :: "jsnum \<Rightarrow> TimelineService \<Rightarrow> TimelineService" where
  "moveBy bases s = setPosition (js_add (position s) bases) s"

definition scrollToBoundary :: "bool \<Rightarrow> TimelineService \<Rightarrow> TimelineService" where
  "scrollToBoundary toEnd s =
     (if toEnd then setPosition (maxPosition s) s else setPosition (Fin 0) s)"

definition setHighlight :: "int \<Rightarrow> int \<Rightarrow> TimelineService \<Rightarrow> TimelineService" where
  "setHighlight start end' s = s\<lparr>highlightedRange := Some (start, end')\<rparr>"

definition clearHighlight :: "TimelineService \<Rightarrow> TimelineService" where
  "clearHighlight s = s\<lparr>highlightedRange := None\<rparr>"

text \<open>\<^verbatim>\<open>viewRange\<close>: the computed pair \<^verbatim>\<open>{start: position, end: position + zoom}\<close>.\<close>

definition viewRange :: "TimelineService \<Rightarrow> jsnum \<times> jsnum" where
  "viewRange s = (position s, js_add (position s) (zoom s))"

text \<open>
  The calls of the service as data, so that a sequence of calls is a list. A call has
  finite arguments when every number passed is finite; the range of a \<open>setRange\<close> call is
  finite when its length \<^verbatim>\<open>end - start\<close> does not overflow.
\<close>

datatype ViewportOp =
    SetMaxPosition jsnum
  | SetZoom jsnum
  | SetPosition jsnum
  | SetRange jsnum jsnum
  | MoveBy jsnum
  | ScrollToBoundary bool
  | SetHighlight int int
  | ClearHighlight

fun applyOp :: "ViewportOp \<Rightarrow> TimelineService \<Rightarrow> TimelineService" where
  "applyOp (SetMaxPosition mx) s = setMaxPosition mx s"
| "applyOp (SetZoom z) s = setZoom z s"
| "applyOp (SetPosition p) s = setPosition p s"
| "applyOp (SetRange a b) s = setRange a b s"
| "applyOp (MoveBy d) s = moveBy d s"
| "applyOp (ScrollToBoundary e) s = scrollToBoundary e s"
| "applyOp (SetHighlight a b) s = setHighlight a b s"
| "applyOp ClearHighlight s = clearHighlight s"

fun finiteArgs :: "ViewportOp \<Rightarrow> bool" where
  "finiteArgs (SetMaxPosition mx) = is_fin mx"
| "finiteArgs (SetZoom z) = is_fin z"
| "finiteArgs (SetPosition p) = is_fin p"
| "finiteArgs (SetRange a b) = (is_fin a \<and> is_fin b)"
| "finiteArgs (MoveBy d) = is_fin d"
| "finiteArgs opn = True"

fun rangeFinite :: "ViewportOp \<Rightarrow> bool" where
  "rangeFinite (SetRange a b) = is_fin (js_sub b a)"
| "rangeFinite opn = True"

fun isViewOp :: "ViewportOp \<Rightarrow> bool" where
  "isViewOp (SetZoom z) = True"
| "isViewOp (SetPosition p) = True"
| "isViewOp (SetRange a b) = True"
| "isViewOp (MoveBy d) = True"
| "isViewOp opn = False"

text \<open>The states after each call of a sequence, in order.\<close>

fun runOps :: "ViewportOp list \<Rightarrow> TimelineService \<Rightarrow> TimelineService list" where
  "runOps [] s = []"
| "runOps (opn # ops) s = applyOp opn s # runOps ops (applyOp opn s)"

text \<open>
  The invariant as the specification states it: \<open>0 \<le> position\<close>, and
  \<open>position + zoom \<le> maxPosition\<close> whenever \<open>maxPosition\<close> is finite.
\<close>

definition spec_invariant :: "TimelineService \<Rightarrow> bool" where
  "spec_invariant s =
     (js_le (Fin 0) (position s) \<and>
      (is_fin (maxPosition s) \<longrightarrow> js_le (js_add (position s) (zoom s)) (maxPosition s)))"

text \<open>
  The numbers of a state that the invariant is about: a finite zoom of at least 1, as
  every writer of \<open>zoom\<close> stores \<^verbatim>\<open>Math.max(1, ...)\<close>, a position that is not NaN, and a bound
  that is a number other than NaN.
\<close>

definition viewportNumbers :: "TimelineService \<Rightarrow> bool" where
  "viewportNumbers s =
     (is_fin (zoom s) \<and> js_le (Fin 1) (zoom s) \<and> position s \<noteq> NaN \<and>
      maxPosition s \<noteq> NaN \<and> js_number (maxPosition s))"

text \<open>
  The window fits under a finite bound, \<open>zoom \<le> maxPosition\<close>, and the room left of it,
  \<^verbatim>\<open>maxPosition - zoom\<close>, is computed without rounding, as it is for integers below \<open>2 ^ 53\<close>.
\<close>

definition exact_room :: "TimelineService \<Rightarrow> bool" where
  "exact_room s =
     (case maxPosition s of
        Fin m \<Rightarrow> (case zoom s of
                    Fin z \<Rightarrow> z \<le> m \<and> js_sub (Fin m) (Fin z) = Fin (m - z)
                  | _ \<Rightarrow> False)
      | _ \<Rightarrow> False)"

text \<open>\<open>clamp x lo hi\<close> in the specification's sense: \<open>x\<close> moved into \<open>[lo, hi]\<close>.\<close>

definition spec_clamp :: "jsnum \<Rightarrow> jsnum \<Rightarrow> jsnum \<Rightarrow> jsnum" where
  "spec_clamp x lo hi = (if js_lt x lo then lo else if js_lt hi x then hi else x)"

section \<open>Minimap\<close>

text \<open>
  \<^verbatim>\<open>AnalysisMinimapComponent.handleInteraction\<close>: \<open>clientX\<close> is the event's coordinate,
  \<open>rectLeft\<close> and \<open>width\<close> are the canvas rectangle's \<^verbatim>\<open>left\<close> and \<^verbatim>\<open>width\<close>.
\<close>

definition handleInteraction ::
  "jsnum \<Rightarrow> jsnum \<Rightarrow> jsnum \<Rightarrow> TimelineService \<Rightarrow> TimelineService" where
  "handleInteraction clientX rectLeft width s =
     (let x = js_sub clientX rectLeft;
          lengthValue = maxPosition s;
          zoomValue = zoom s;
          clickRatio = js_max (Fin 0) (js_min (Fin 1) (js_div x width));
          newPos0 = js_floor (js_mul clickRatio lengthValue);
          newPos1 = js_sub newPos0 (js_div zoomValue (Fin 2));
          newPos2 = js_max (Fin 0) (js_min newPos1 (js_sub lengthValue zoomValue))
      in setPosition newPos2 s)"

text \<open>
  The position the specification gives for a click at ratio \<open>r\<close>:
  \<open>r \<times> maxPosition - zoom / 2\<close> clamped to \<open>[0, maxPosition - zoom]\<close>, in the arithmetic of
  the program.
\<close>

definition spec_minimapPosition :: "jsnum \<Rightarrow> jsnum \<Rightarrow> jsnum \<Rightarrow> jsnum" where
  "spec_minimapPosition r maxPos zm =
     spec_clamp (js_sub (js_mul r maxPos) (js_div zm (Fin 2))) (Fin 0) (js_sub maxPos zm)"

text \<open>The ratio of a click as the handler computes it, clamped to \<open>[0, 1]\<close>.\<close>

definition clampedRatio :: "jsnum \<Rightarrow> jsnum \<Rightarrow> jsnum \<Rightarrow> jsnum" where
  "clampedRatio clientX rectLeft width =
     js_max (Fin 0) (js_min (Fin 1) (js_div (js_sub clientX rectLeft) width))"

section \<open>Alignment data\<close>

text \<open>
  \<^verbatim>\<open>ConsensusAlignItem\<close>: the allele arrays are arrays of strings, the Sanger positions
  are optional arrays of base indices.
\<close>

record ConsensusAlignItem =
  refPos :: int
  sangerPos1 :: "int list option"
  sangerPos2 :: "int list option"
  alt1 :: "string list"
  alt2 :: "string list"
  cons :: "string list"

text \<open>
  The \<^verbatim>\<open>trace\<close> of a result: four amplitude arrays and the scan index of each base.
\<close>

record Trace =
  traceA :: "jsnum list"
  traceC :: "jsnum list"
  traceG :: "jsnum list"
  traceT :: "jsnum list"
  peakLocations :: "int list"

text \<open>
  An \<^verbatim>\<open>AnalysisEntry\<close> with the parts of its \<^verbatim>\<open>result\<close> that the viewer reads.
  \<^verbatim>\<open>consensusAlign\<close> is a \<^verbatim>\<open>Record<string, ConsensusAlignItem>\<close> whose keys are the decimal
  strings of reference positions. The model keeps the entries as a list of pairs, in the
  order in which the object enumerates them, each key replaced by the integer that
  \<^verbatim>\<open>parseInt\<close> reads from it; \<^verbatim>\<open>consensusAlign[refPos.toString()]\<close> is \<^const>\<open>map_of\<close>.
\<close>

record AnalysisEntry =
  readId :: string
  consensusAlign :: "(int \<times> ConsensusAlignItem) list option"
  trace :: "Trace option"

datatype Allele = AlleleCons | AlleleAlt1 | AlleleAlt2

text \<open>\<^verbatim>\<open>item[allele]\<close>.\<close>

fun alleleChars :: "Allele \<Rightarrow> ConsensusAlignItem \<Rightarrow> string list" where
  "alleleChars AlleleCons item = cons item"
| "alleleChars AlleleAlt1 item = alt1 item"
| "alleleChars AlleleAlt2 item = alt2 item"

text \<open>
  \<^verbatim>\<open>arr[i]\<close> on a JavaScript array: \<^verbatim>\<open>undefined\<close> (here \<open>None\<close>) outside the array.
\<close>

definition js_nth :: "'a list \<Rightarrow> int \<Rightarrow> 'a option" where
  "js_nth xs i = (if 0 \<le> i \<and> i < int (length xs) then Some (xs ! nat i) else None)"

section \<open>The depth map\<close>

text \<open>
  \<^verbatim>\<open>alignmentDepthMap\<close> in \<^verbatim>\<open>analysis.ts\<close>. \<open>depthItem\<close> is the body of the inner loop,
  \<open>depthTrace\<close> the body of the outer loop, with its \<^verbatim>\<open>continue\<close> for a track without
  alignment. \<^verbatim>\<open>depthMap.get(refPos) || 0\<close> reads a missing key as 0.
\<close>

definition depthItem :: "(int \<rightharpoonup> nat) \<Rightarrow> int \<times> ConsensusAlignItem \<Rightarrow> (int \<rightharpoonup> nat)" where
  "depthItem depthMap entry =
     (let refPos = fst entry;
          currentMax = (case depthMap refPos of None \<Rightarrow> 0 | Some d \<Rightarrow> d)
      in depthMap(refPos \<mapsto> max currentMax (length (cons (snd entry)))))"

definition depthTrace :: "(int \<rightharpoonup> nat) \<Rightarrow> AnalysisEntry \<Rightarrow> (int \<rightharpoonup> nat)" where
  "depthTrace depthMap tr =
     (case consensusAlign tr of None \<Rightarrow> depthMap | Some al \<Rightarrow> foldl depthItem depthMap al)"

definition alignmentDepthMap :: "AnalysisEntry option \<Rightarrow> AnalysisEntry list \<Rightarrow> (int \<rightharpoonup> nat)" where
  "alignmentDepthMap reference traces =
     (case reference of None \<Rightarrow> Map.empty
      | Some r \<Rightarrow> foldl depthTrace Map.empty (r # traces))"

text \<open>
  The allele depth of an entry as the specification counts it in its example: the longest
  of the entry's allele arrays.
\<close>

definition spec_alleleDepth :: "ConsensusAlignItem \<Rightarrow> nat" where
  "spec_alleleDepth item = max (length (cons item)) (max (length (alt1 item)) (length (alt2 item)))"

text \<open>
  For the statement of what the depth map holds: all alignment entries of a list of
  tracks, and the lengths of the consensus arrays of the entries at one position.
\<close>

definition entriesOf :: "AnalysisEntry list \<Rightarrow> (int \<times> ConsensusAlignItem) list" where
  "entriesOf tracks =
     concat (map (\<lambda>t. case consensusAlign t of None \<Rightarrow> [] | Some al \<Rightarrow> al) tracks)"

definition consLengthsAt :: "int \<Rightarrow> (int \<times> ConsensusAlignItem) list \<Rightarrow> nat list" where
  "consLengthsAt p entries = map (\<lambda>e. length (cons (snd e))) (filter (\<lambda>e. fst e = p) entries)"

text \<open>\<^verbatim>\<open>depthMap.get(refPos) || 0\<close> as a function of the map.\<close>

definition currentMaxAt :: "(int \<rightharpoonup> nat) \<Rightarrow> int \<Rightarrow> nat" where
  "currentMaxAt m p = (case m p of None \<Rightarrow> 0 | Some d \<Rightarrow> d)"

text \<open>
  The example of the specification at reference position 50: track A with consensus
  \<open>[A]\<close> and first alternative \<open>[A, T]\<close>, track B with consensus \<open>[A]\<close>, and a reference
  track with the base \<open>A\<close> at that position.
\<close>

definition exampleItemA :: ConsensusAlignItem where
  "exampleItemA =
     \<lparr>refPos = 50, sangerPos1 = None, sangerPos2 = None,
      alt1 = [''A'', ''T''], alt2 = [], cons = [''A'']\<rparr>"

definition exampleItemB :: ConsensusAlignItem where
  "exampleItemB =
     \<lparr>refPos = 50, sangerPos1 = None, sangerPos2 = None,
      alt1 = [], alt2 = [], cons = [''A'']\<rparr>"

definition exampleTrackA :: AnalysisEntry where
  "exampleTrackA = \<lparr>readId = ''A'', consensusAlign = Some [(50, exampleItemA)], trace = None\<rparr>"

definition exampleTrackB :: AnalysisEntry where
  "exampleTrackB = \<lparr>readId = ''B'', consensusAlign = Some [(50, exampleItemB)], trace = None\<rparr>"

definition exampleReference :: AnalysisEntry where
  "exampleReference =
     \<lparr>readId = ''Reference'',
      consensusAlign = Some [(50, \<lparr>refPos = 50, sangerPos1 = Some [49], sangerPos2 = None,
                                  alt1 = [], alt2 = [], cons = [''A'']\<rparr>)],
      trace = None\<rparr>"

text \<open>
  A reference track whose entry at position 50 has an empty consensus array, and a
  viewport that shows exactly the reference position 50 (viewport index 49).
\<close>

definition exampleEmptyReference :: AnalysisEntry where
  "exampleEmptyReference =
     \<lparr>readId = ''Reference'',
      consensusAlign = Some [(50, \<lparr>refPos = 50, sangerPos1 = None, sangerPos2 = None,
                                  alt1 = [], alt2 = [], cons = []\<rparr>)],
      trace = None\<rparr>"

definition exampleViewport :: TimelineService where
  "exampleViewport =
     \<lparr>zoom = Fin 1, position = Fin 49, maxPosition = Fin 100, highlightedRange = None\<rparr>"

section \<open>NucleotideRow: depth expansion\<close>

text \<open>One emitted sub-cell. \<open>isInsertion\<close> and \<open>showAlways\<close> are absent on some rows.\<close>

record Cell =
  cellType :: string
  char :: string
  index :: int
  subIndex :: nat
  globalIndex :: int
  isMatch :: bool
  isInsertion :: "bool option"
  isHighlighted :: bool
  showAlways :: "bool option"
  isSequenceSelection :: bool
  cellSangerPos1 :: "int list option"
  cellSangerPos2 :: "int list option"

text \<open>\<^verbatim>\<open>depthMap.get(refPos) || 1\<close>: a missing key and a stored 0 both give 1.\<close>

definition depthAt :: "(int \<rightharpoonup> nat) \<Rightarrow> int \<Rightarrow> nat" where
  "depthAt depthMap rp = (case depthMap rp of None \<Rightarrow> 1 | Some d \<Rightarrow> (if d = 0 then 1 else d))"

text \<open>The character of the consensus row at slot \<open>k\<close>, branch by branch as in the source.\<close>

definition consCharAt :: "ConsensusAlignItem option \<Rightarrow> nat \<Rightarrow> string" where
  "consCharAt item k =
     (case item of
        Some it \<Rightarrow>
          (if k < length (cons it) then cons it ! k
           else if length (cons it) > 0 \<and> k \<ge> length (cons it) then ''-''
           else ''-'')
      | None \<Rightarrow> ''-'')"

definition altCharAt :: "string list option \<Rightarrow> nat \<Rightarrow> string" where
  "altCharAt chars k =
     (case chars of Some cs \<Rightarrow> (if k < length cs then cs ! k else ''-'') | None \<Rightarrow> ''-'')"

text \<open>
  The three cells pushed for slot \<open>k\<close> of one reference position: \<open>row\<close> 0 is the consensus
  row, 1 and 2 the alternative alleles.
\<close>

definition isHighlightedAt :: "(int \<times> int) option \<Rightarrow> int \<Rightarrow> bool" where
  "isHighlightedAt highlight currentGlobalIndex =
     (case highlight of None \<Rightarrow> False
      | Some (hs, he) \<Rightarrow> currentGlobalIndex \<ge> hs \<and> currentGlobalIndex \<le> he)"

definition mkCell ::
  "nat \<Rightarrow> ConsensusAlignItem option \<Rightarrow> (int \<times> int) option \<Rightarrow> bool \<Rightarrow> int \<Rightarrow> nat \<Rightarrow> Cell" where
  "mkCell row item highlight isSelectedRow currentGlobalIndex k =
     (let rp = currentGlobalIndex + 1;
          hl = isHighlightedAt highlight currentGlobalIndex;
          consChar = consCharAt item k;
          alt1Char = altCharAt (map_option alt1 item) k;
          alt2Char = altCharAt (map_option alt2 item) k;
          sp1 = (case item of None \<Rightarrow> None | Some it \<Rightarrow> sangerPos1 it);
          sp2 = (case item of None \<Rightarrow> None | Some it \<Rightarrow> sangerPos2 it)
      in if row = 0 then
           \<lparr>cellType = ''nucleotide'', char = consChar, index = rp, subIndex = k,
            globalIndex = currentGlobalIndex, isMatch = False, isInsertion = None,
            isHighlighted = hl, showAlways = Some True,
            isSequenceSelection = (hl \<and> isSelectedRow),
            cellSangerPos1 = sp1, cellSangerPos2 = sp2\<rparr>
         else if row = 1 then
           \<lparr>cellType = ''nucleotide'', char = alt1Char, index = rp, subIndex = k,
            globalIndex = currentGlobalIndex, isMatch = (alt1Char = consChar),
            isInsertion = Some (alt1Char \<noteq> ''-'' \<and> consChar = ''-''),
            isHighlighted = hl, showAlways = None,
            isSequenceSelection = (hl \<and> isSelectedRow),
            cellSangerPos1 = sp1, cellSangerPos2 = sp2\<rparr>
         else
           \<lparr>cellType = ''nucleotide'', char = alt2Char, index = rp, subIndex = k,
            globalIndex = currentGlobalIndex, isMatch = (alt2Char = consChar),
            isInsertion = Some (alt2Char \<noteq> ''-'' \<and> consChar = ''-''),
            isHighlighted = hl, showAlways = None,
            isSequenceSelection = (hl \<and> isSelectedRow),
            cellSangerPos1 = sp1, cellSangerPos2 = sp2\<rparr>)"

text \<open>
  The inner loop \<^verbatim>\<open>for (k = 0; k < maxDepth; k++)\<close> and the outer loop
  \<^verbatim>\<open>for (i = 0; i < totalCells; i++)\<close>, for one of the three rows.
\<close>

definition slotCells ::
  "nat \<Rightarrow> (int \<times> ConsensusAlignItem) list \<Rightarrow> (int \<rightharpoonup> nat) \<Rightarrow> (int \<times> int) option \<Rightarrow> bool
     \<Rightarrow> int \<Rightarrow> Cell list" where
  "slotCells row al depthMap highlight isSelectedRow currentGlobalIndex =
     (let rp = currentGlobalIndex + 1;
          item = map_of al rp;
          maxDepth = depthAt depthMap rp
      in map (mkCell row item highlight isSelectedRow currentGlobalIndex) [0..<maxDepth])"

definition rowCells ::
  "nat \<Rightarrow> (int \<times> ConsensusAlignItem) list \<Rightarrow> (int \<rightharpoonup> nat) \<Rightarrow> (int \<times> int) option \<Rightarrow> bool
     \<Rightarrow> int \<Rightarrow> nat \<Rightarrow> Cell list" where
  "rowCells row al depthMap highlight isSelectedRow viewStart totalCells =
     concat (map (\<lambda>i. slotCells row al depthMap highlight isSelectedRow (viewStart + int i))
                 [0..<totalCells])"

text \<open>
  How often the outer loop runs: \<open>i\<close> counts up from 0 while \<^verbatim>\<open>i < totalCells\<close>. The test
  is false at once for NaN and \<^verbatim>\<open>-Infinity\<close>, and never false for \<^verbatim>\<open>Infinity\<close>, where the loop
  does not end (\<open>None\<close>); nor does it end beyond \<open>2 ^ 53\<close>, where \<^verbatim>\<open>i++\<close> no longer changes
  \<open>i\<close>.
\<close>

definition loopCount :: "jsnum \<Rightarrow> nat option" where
  "loopCount totalCells =
     (case totalCells of
        Fin r \<Rightarrow> (if r \<le> 2 ^ 53 then Some (nat \<lceil>r\<rceil>) else None)
      | PosInf \<Rightarrow> None
      | _ \<Rightarrow> Some 0)"

definition intOf :: "jsnum \<Rightarrow> int" where
  "intOf a = (case a of Fin r \<Rightarrow> \<lfloor>r\<rfloor> | _ \<Rightarrow> 0)"

text \<open>
  \<^verbatim>\<open>visibleAlleles\<close>: the rows to display, \<open>None\<close> when the loop does not end. With a finite
  number of cells both window bounds are finite, so \<open>intOf\<close> reads the start exactly. The
  index \<^verbatim>\<open>viewStart + i\<close> of a cell is an integer of the model; the program computes it in
  doubles, exactly as long as it stays within \<open>2 ^ 53\<close>.
\<close>

definition visibleAlleles ::
  "AnalysisEntry option \<Rightarrow> bool \<Rightarrow> bool \<Rightarrow> (int \<rightharpoonup> nat) \<Rightarrow> TimelineService
     \<Rightarrow> Cell list list option" where
  "visibleAlleles tr expanded isSelectedRow depthMap s =
     (case tr of None \<Rightarrow> Some []
      | Some t \<Rightarrow>
        (case consensusAlign t of None \<Rightarrow> Some []
         | Some al \<Rightarrow>
           (let view = viewRange s;
                highlight = highlightedRange s;
                viewStart = js_floor (fst view);
                viewEnd = js_ceil (snd view);
                totalCells = js_sub viewEnd viewStart
            in case loopCount totalCells of None \<Rightarrow> None
               | Some n \<Rightarrow>
                 (let rows = map (\<lambda>row. rowCells row al depthMap highlight isSelectedRow
                                           (intOf viewStart) n) [0, 1, 2]
                  in if \<not> expanded then Some [rows ! 0] else Some rows))))"

text \<open>
  For the statement of what a sub-cell shows: the allele channel of a displayed row, and
  the character of a channel at a slot as the specification gives it (the entry's character
  at that index when the entry exists and the index is within its array, the gap filler
  otherwise).
\<close>

definition rowAllele :: "nat \<Rightarrow> Allele" where
  "rowAllele row = (if row = 0 then AlleleCons else if row = 1 then AlleleAlt1 else AlleleAlt2)"

definition spec_subCellChar :: "Allele \<Rightarrow> ConsensusAlignItem option \<Rightarrow> nat \<Rightarrow> string" where
  "spec_subCellChar allele item k =
     (case item of
        None \<Rightarrow> ''-''
      | Some it \<Rightarrow> (if k < length (alleleChars allele it) then alleleChars allele it ! k else ''-''))"

text \<open>The cells of a row that belong to one reference position.\<close>

definition cellsAt :: "int \<Rightarrow> Cell list \<Rightarrow> Cell list" where
  "cellsAt rp cells = filter (\<lambda>c. index c = rp) cells"

section \<open>GroupNucleotideRows: selection, copy and context menu\<close>

record Signals =
  sigA :: jsnum
  sigC :: jsnum
  sigG :: jsnum
  sigT :: jsnum

record ContextMenuData =
  menuReadId :: string
  menuRefPos :: int
  menuSangerPos :: "int list"
  menuSignals :: "Signals list"

text \<open>
  The component's own signals and flags, the two inputs it reads (\<open>referenceTrace\<close>,
  \<open>traces\<close>) and the injected timeline service.
\<close>

record GroupNucleotideRows =
  timeline :: TimelineService
  referenceTrace :: "AnalysisEntry option"
  traces :: "AnalysisEntry list"
  ignoreNextClick :: bool
  contextMenuData :: "ContextMenuData option"
  contextMenuPosition :: "jsnum \<times> jsnum"
  isSelecting :: bool
  selectionStart :: "int option"
  selectingRowId :: "string option"
  selectingAlleleIndex :: "int option"
  selectionPopUpVisible :: bool
  previousSingleHighlight :: "(int \<times> int) option"

text \<open>
  \<^verbatim>\<open>handleMouseDown\<close> and \<^verbatim>\<open>handleMouseEnter\<close>; \<open>gi\<close> is the event's \<^verbatim>\<open>globalIndex\<close>,
  \<open>ai\<close> its \<^verbatim>\<open>alleleIndex\<close>.
\<close>

definition handleMouseDown :: "int \<Rightarrow> int \<Rightarrow> string \<Rightarrow> GroupNucleotideRows \<Rightarrow> GroupNucleotideRows" where
  "handleMouseDown gi ai rid g =
     (let currentHighlight = highlightedRange (timeline g);
          prev = (case currentHighlight of
                    Some (hs, he) \<Rightarrow> (if hs = he then Some (hs, he) else None)
                  | None \<Rightarrow> None)
      in g\<lparr>previousSingleHighlight := prev,
            isSelecting := True,
            selectionStart := Some gi,
            selectingRowId := Some rid,
            selectingAlleleIndex := Some ai,
            timeline := setHighlight gi gi (timeline g)\<rparr>)"

definition handleMouseEnter :: "int \<Rightarrow> int \<Rightarrow> string \<Rightarrow> GroupNucleotideRows \<Rightarrow> GroupNucleotideRows" where
  "handleMouseEnter gi ai rid g =
     (if \<not> isSelecting g then g
      else (case selectionStart g of
              None \<Rightarrow> g
            | Some start \<Rightarrow>
                g\<lparr>timeline := setHighlight (min start gi) (max start gi) (timeline g)\<rparr>))"

text \<open>A drag: the press on one cell, then the cells the pointer enters, in order.\<close>

definition drag :: "int \<Rightarrow> int list \<Rightarrow> int \<Rightarrow> string \<Rightarrow> GroupNucleotideRows \<Rightarrow> GroupNucleotideRows" where
  "drag pressed entered ai rid g =
     foldl (\<lambda>st gi. handleMouseEnter gi ai rid st) (handleMouseDown pressed ai rid g) entered"

text \<open>\<^verbatim>\<open>closeContextMenu\<close>.\<close>

definition closeContextMenu :: "GroupNucleotideRows \<Rightarrow> GroupNucleotideRows" where
  "closeContextMenu g =
     (if ignoreNextClick g then g\<lparr>ignoreNextClick := False\<rparr>
      else
        (let g1 = (if contextMenuData g \<noteq> None then g\<lparr>contextMenuData := None\<rparr> else g)
         in if selectionPopUpVisible g1 then
              (case previousSingleHighlight g1 of
                 Some (hs, he) \<Rightarrow>
                   g1\<lparr>selectionPopUpVisible := False,
                       timeline := setHighlight hs he (timeline g1),
                       previousSingleHighlight := None\<rparr>
               | None \<Rightarrow>
                   g1\<lparr>selectionPopUpVisible := False,
                       timeline := clearHighlight (timeline g1)\<rparr>)
            else g1))"

text \<open>
  The row a handler works on: the reference track for the id \<^verbatim>\<open>'Reference'\<close>, otherwise
  the first track with that id.
\<close>

definition findEntry :: "string \<Rightarrow> GroupNucleotideRows \<Rightarrow> AnalysisEntry option" where
  "findEntry rid g =
     (if rid = ''Reference'' then referenceTrace g
      else find (\<lambda>t. readId t = rid) (traces g))"

text \<open>
  What \<^verbatim>\<open>copySequence\<close> does: it returns silently without a row id, shows a toast, or
  hands a text to \<^verbatim>\<open>navigator.clipboard.writeText\<close>. Whether the clipboard then accepts
  the text is outside the program.
\<close>

datatype CopyOutcome = NoRow | SequenceDataNotFound | SequenceIsEmpty | ClipboardText string

text \<open>
  The loop over the sorted keys, with \<open>fullSequence\<close> as accumulator:
  \<^verbatim>\<open>chars.join('').replace(/-/g, '')\<close> joins the strings of the array and deletes every
  \<open>-\<close> from the result.
\<close>

fun copyLoop ::
  "(int \<times> int) option \<Rightarrow> Allele \<Rightarrow> (int \<times> ConsensusAlignItem) list \<Rightarrow> string \<Rightarrow> string" where
  "copyLoop selRange allele [] fullSequence = fullSequence"
| "copyLoop selRange allele ((key, item) # rest) fullSequence =
     (let globalIndex = key - 1
      in if (case selRange of None \<Rightarrow> False
             | Some (rs, re) \<Rightarrow> globalIndex < rs \<or> globalIndex > re)
         then copyLoop selRange allele rest fullSequence
         else copyLoop selRange allele rest
                (fullSequence @ filter (\<lambda>c. c \<noteq> CHR ''-'') (concat (alleleChars allele item))))"

definition copySequence :: "Allele \<Rightarrow> GroupNucleotideRows \<Rightarrow> CopyOutcome \<times> GroupNucleotideRows" where
  "copySequence allele g =
     (let rowId = (case contextMenuData g of Some d \<Rightarrow> Some (menuReadId d)
                   | None \<Rightarrow> selectingRowId g)
      in case rowId of
           None \<Rightarrow> (NoRow, g)
         | Some rid \<Rightarrow>
            (if rid = [] then (NoRow, g)
             else
               (case findEntry rid g of
                  None \<Rightarrow> (SequenceDataNotFound, g)
                | Some traceEntry \<Rightarrow>
                   (case consensusAlign traceEntry of
                      None \<Rightarrow> (SequenceDataNotFound, g)
                    | Some align \<Rightarrow>
                       (let selRange = highlightedRange (timeline g);
                            sortedKeys = sort_key fst align;
                            fullSequence = copyLoop selRange allele sortedKeys []
                        in if fullSequence = [] then (SequenceIsEmpty, g)
                           else (ClipboardText fullSequence, closeContextMenu g))))))"

text \<open>
  The copied text as the specification describes it: over the entries whose viewport index
  \<open>refPos - 1\<close> lies in the inclusive range, in ascending order of reference position, the
  characters of the chosen channel, all slots, with every gap filler removed.
\<close>

definition spec_copyText ::
  "int \<Rightarrow> int \<Rightarrow> Allele \<Rightarrow> (int \<times> ConsensusAlignItem) list \<Rightarrow> string" where
  "spec_copyText lo hi allele align =
     filter (\<lambda>c. c \<noteq> CHR ''-'')
       (concat (map (\<lambda>e. concat (alleleChars allele (snd e)))
                    (filter (\<lambda>e. lo \<le> fst e - 1 \<and> fst e - 1 \<le> hi) (sort_key fst align))))"

text \<open>
  A state for examples: one read whose alignment lists the positions 3, 1, 2 with the
  consensus arrays \<open>[G]\<close>, \<open>[A, -]\<close> and \<open>[-]\<close>, and nothing selected.
\<close>

definition exampleRead :: AnalysisEntry where
  "exampleRead =
     \<lparr>readId = ''read1'',
      consensusAlign = Some
        [(3, \<lparr>refPos = 3, sangerPos1 = None, sangerPos2 = None, alt1 = [], alt2 = [],
              cons = [''G'']\<rparr>),
         (1, \<lparr>refPos = 1, sangerPos1 = None, sangerPos2 = None, alt1 = [], alt2 = [],
              cons = [''A'', ''-'']\<rparr>),
         (2, \<lparr>refPos = 2, sangerPos1 = None, sangerPos2 = None, alt1 = [], alt2 = [],
              cons = [''-'']\<rparr>)],
      trace = None\<rparr>"

definition exampleGroup :: GroupNucleotideRows where
  "exampleGroup =
     \<lparr>timeline = initialTimeline, referenceTrace = None, traces = [exampleRead],
      ignoreNextClick = False, contextMenuData = None, contextMenuPosition = (Fin 0, Fin 0),
      isSelecting = False, selectionStart = None, selectingRowId = None,
      selectingAlleleIndex = None, selectionPopUpVisible = False,
      previousSingleHighlight = None\<rparr>"

text \<open>
  \<^verbatim>\<open>traceX[scanIndex] || 0\<close>, where \<open>scanIndex\<close> is itself the result of an array read:
  an index outside either array, a NaN and a zero sample all read as 0.
\<close>

definition sampleAt :: "jsnum list \<Rightarrow> int option \<Rightarrow> jsnum" where
  "sampleAt samples scanIndex =
     (case scanIndex of
        None \<Rightarrow> Fin 0
      | Some i \<Rightarrow>
          (case js_nth samples i of
             None \<Rightarrow> Fin 0
           | Some v \<Rightarrow> (if v = NaN \<or> v = Fin 0 then Fin 0 else v)))"

definition signalsAt :: "Trace \<Rightarrow> int option \<Rightarrow> Signals" where
  "signalsAt t scanIndex =
     \<lparr>sigA = sampleAt (traceA t) scanIndex, sigC = sampleAt (traceC t) scanIndex,
      sigG = sampleAt (traceG t) scanIndex, sigT = sampleAt (traceT t) scanIndex\<rparr>"

text \<open>
  \<^verbatim>\<open>handleContextMenu\<close>: \<open>idx\<close>, \<open>sp1\<close>, \<open>sp2\<close> are the event's \<^verbatim>\<open>index\<close>, \<^verbatim>\<open>sangerPos1\<close> and
  \<^verbatim>\<open>sangerPos2\<close>, \<open>cx\<close> and \<open>cy\<close> the pointer's coordinates, \<open>rid\<close> the optional row id.
\<close>

definition handleContextMenu ::
  "int \<Rightarrow> int list option \<Rightarrow> int list option \<Rightarrow> jsnum \<Rightarrow> jsnum \<Rightarrow> string option
     \<Rightarrow> GroupNucleotideRows \<Rightarrow> GroupNucleotideRows" where
  "handleContextMenu idx sp1 sp2 cx cy rid g =
     (let traceEntry = (case rid of None \<Rightarrow> None | Some r \<Rightarrow> findEntry r g)
      in case traceEntry of
           None \<Rightarrow> g
         | Some e \<Rightarrow>
            (case trace e of
               None \<Rightarrow> g
             | Some t \<Rightarrow>
                (let sangerPositions =
                       (case sp1 of None \<Rightarrow> [] | Some ps \<Rightarrow> ps) @
                       (case sp2 of None \<Rightarrow> [] | Some ps \<Rightarrow> ps);
                     signalValues =
                       map (\<lambda>pos. signalsAt t (js_nth (peakLocations t) (pos - 1))) sangerPositions
                 in g\<lparr>contextMenuPosition := (js_add cx (Fin 5), js_add cy (Fin 5)),
                       contextMenuData :=
                         Some \<lparr>menuReadId = (case rid of Some r \<Rightarrow> (if r = [] then ''Unknown'' else r)
                                             | None \<Rightarrow> ''Unknown''),
                               menuRefPos = idx,
                               menuSangerPos = sangerPositions,
                               menuSignals = signalValues\<rparr>\<rparr>)))"

section \<open>SangerChartComponent: the chromatogram\<close>

record HighlightConfig =
  hcPos :: int
  hcColor :: string
  hcLabel :: "string option"

text \<open>
  The chart's inputs and signals. \<open>containerWidth\<close> is the \<^verbatim>\<open>clientWidth\<close> of the scroll
  container, \<open>None\<close> while the view has no container; \<open>scrollRequest\<close> is the \<^verbatim>\<open>left\<close> of the
  last \<^verbatim>\<open>scrollTo\<close> the chart issued.
\<close>

record SangerChart =
  chartTrace :: "Trace option"
  zoomX :: jsnum
  zoomY :: jsnum
  height :: jsnum
  isReverse :: bool
  staticMode :: bool
  containerWidth :: "jsnum option"
  scrollRequest :: "jsnum option"
  highlightConfigs :: "HighlightConfig list"

text \<open>
  \<^verbatim>\<open>Math.max(a, b, ...)\<close> of the listed arguments: \<^verbatim>\<open>-Infinity\<close> for no arguments, NaN as
  soon as one argument is NaN.
\<close>

definition math_max_args :: "jsnum list \<Rightarrow> jsnum" where
  "math_max_args xs = foldl js_max NegInf xs"

text \<open>
  \<^verbatim>\<open>Math.max(...xs)\<close>: the spread passes one argument per element of the array, and a call
  with more arguments than the engine's stack holds raises a \<^verbatim>\<open>RangeError\<close>. The bound
  \<open>argLimit\<close> is the engine's, not the program's, and is a parameter of the model.
\<close>

datatype js_error = RangeError

definition math_max :: "nat \<Rightarrow> jsnum list \<Rightarrow> js_error + jsnum" where
  "math_max argLimit xs = (if argLimit < length xs then Inl RangeError else Inr (math_max_args xs))"

text \<open>
  \<^verbatim>\<open>maxAmplitude\<close>: the four spreads are evaluated in the order \<open>A\<close>, \<open>C\<close>, \<open>G\<close>, \<open>T\<close>, and the
  first that raises ends the computation.
\<close>

definition maxAmplitude :: "nat \<Rightarrow> SangerChart \<Rightarrow> js_error + jsnum" where
  "maxAmplitude argLimit ch =
     (case chartTrace ch of
        None \<Rightarrow> Inr (Fin 100)
      | Some t \<Rightarrow>
          (case math_max argLimit (traceA t) of Inl err \<Rightarrow> Inl err | Inr maxA \<Rightarrow>
          (case math_max argLimit (traceC t) of Inl err \<Rightarrow> Inl err | Inr maxC \<Rightarrow>
          (case math_max argLimit (traceG t) of Inl err \<Rightarrow> Inl err | Inr maxG \<Rightarrow>
          (case math_max argLimit (traceT t) of Inl err \<Rightarrow> Inl err | Inr maxT \<Rightarrow>
             Inr (math_max_args [maxA, maxC, maxG, maxT, Fin 10]))))))"

text \<open>
  \<^verbatim>\<open>makePath\<close>: one segment per sample, \<open>M\<close> for the first and \<open>L\<close> for the others. The model
  keeps each segment as its command and its two coordinates; the source prints them with
  \<^verbatim>\<open>toFixed(1)\<close> and joins the segments with blanks. \<open>maxAmp\<close> is the value of
  \<^verbatim>\<open>maxAmplitude\<close> that \<^verbatim>\<open>tracePaths\<close> read before it builds the paths.
\<close>

definition pathPoint :: "SangerChart \<Rightarrow> jsnum \<Rightarrow> nat \<Rightarrow> jsnum \<Rightarrow> string \<times> jsnum \<times> jsnum" where
  "pathPoint ch maxAmp i val =
     (let x = js_mul (Fin (real i)) (zoomX ch);
          axisHeight = Fin 50;
          graphHeight = js_sub (height ch) axisHeight;
          normalizedY = js_mul (js_div val maxAmp) (zoomY ch);
          y = js_sub graphHeight (js_mul normalizedY graphHeight)
      in (if i = 0 then ''M'' else ''L'', x, y))"

definition makePath :: "SangerChart \<Rightarrow> jsnum \<Rightarrow> jsnum list \<Rightarrow> (string \<times> jsnum \<times> jsnum) list" where
  "makePath ch maxAmp samples = map (\<lambda>(i, val). pathPoint ch maxAmp i val) (enumerate 0 samples)"

text \<open>
  \<^verbatim>\<open>tracePaths\<close>: the paths \<open>a\<close>, \<open>c\<close>, \<open>g\<close>, \<open>t\<close>, in this order; an error of
  \<^verbatim>\<open>maxAmplitude\<close> is the error of \<^verbatim>\<open>tracePaths\<close>.
\<close>

definition tracePaths :: "nat \<Rightarrow> SangerChart \<Rightarrow> js_error + (string \<times> jsnum \<times> jsnum) list list" where
  "tracePaths argLimit ch =
     (case chartTrace ch of
        None \<Rightarrow> Inr [[], [], [], []]
      | Some t \<Rightarrow>
          (case maxAmplitude argLimit ch of
             Inl err \<Rightarrow> Inl err
           | Inr maxAmp \<Rightarrow>
               Inr (if isReverse ch
                    then [makePath ch maxAmp (traceT t), makePath ch maxAmp (traceG t),
                          makePath ch maxAmp (traceC t), makePath ch maxAmp (traceA t)]
                    else [makePath ch maxAmp (traceA t), makePath ch maxAmp (traceC t),
                          makePath ch maxAmp (traceG t), makePath ch maxAmp (traceT t)])))"

text \<open>\<^verbatim>\<open>centerOnX\<close> and \<^verbatim>\<open>centerOnIndex\<close>.\<close>

definition centerOnX :: "jsnum \<Rightarrow> SangerChart \<Rightarrow> SangerChart" where
  "centerOnX x ch =
     (if staticMode ch then ch
      else (case containerWidth ch of
              None \<Rightarrow> ch
            | Some w \<Rightarrow> ch\<lparr>scrollRequest := Some (js_sub x (js_div w (Fin 2)))\<rparr>))"

definition centerOnIndex :: "int \<Rightarrow> SangerChart \<Rightarrow> SangerChart" where
  "centerOnIndex baseIndex ch =
     (case chartTrace ch of
        None \<Rightarrow> ch
      | Some t \<Rightarrow>
          (let locs = peakLocations t
           in if baseIndex < 0 \<or> baseIndex \<ge> int (length locs) then ch
              else
                (let scanIndex = locs ! nat baseIndex;
                     x = js_mul (Fin (real_of_int scanIndex)) (zoomX ch)
                 in (centerOnX x ch)\<lparr>highlightConfigs :=
                       [\<lparr>hcPos = baseIndex + 1, hcColor = ''rgba(255, 255, 0, 0.5)'',
                         hcLabel = None\<rparr>]\<rparr>)))"

text \<open>
  \<^verbatim>\<open>highlights\<close> and \<^verbatim>\<open>highlightIndices\<close>. Both read \<^verbatim>\<open>peakLocations[pos - 1]\<close> without
  a test of the index: outside the array the read is \<^verbatim>\<open>undefined\<close>, and
  \<^verbatim>\<open>undefined * zoomX\<close> is NaN.
\<close>

record Highlight =
  hlX :: jsnum
  hlColor :: string
  hlLabel :: "string option"

definition peakX :: "Trace \<Rightarrow> jsnum \<Rightarrow> int \<Rightarrow> jsnum" where
  "peakX t zX pos =
     (case js_nth (peakLocations t) (pos - 1) of
        None \<Rightarrow> NaN
      | Some scanIndex \<Rightarrow> js_mul (Fin (real_of_int scanIndex)) zX)"

definition highlights :: "SangerChart \<Rightarrow> Highlight list" where
  "highlights ch =
     (case chartTrace ch of
        None \<Rightarrow> []
      | Some t \<Rightarrow>
          map (\<lambda>hc. \<lparr>hlX = peakX t (zoomX ch) (hcPos hc), hlColor = hcColor hc,
                      hlLabel = hcLabel hc\<rparr>)
              (highlightConfigs ch))"

definition highlightIndices :: "HighlightConfig list \<Rightarrow> SangerChart \<Rightarrow> SangerChart" where
  "highlightIndices indices ch =
     (let ch1 = ch\<lparr>highlightConfigs := indices\<rparr>
      in case indices of
           [] \<Rightarrow> ch1
         | first # rest \<Rightarrow>
             (case chartTrace ch1 of
                None \<Rightarrow> ch1
              | Some t \<Rightarrow> centerOnX (peakX t (zoomX ch1) (hcPos first)) ch1))"

text \<open>A trace whose amplitude samples are all finite numbers.\<close>

definition finiteTrace :: "Trace \<Rightarrow> bool" where
  "finiteTrace t =
     (list_all is_fin (traceA t) \<and> list_all is_fin (traceC t) \<and>
      list_all is_fin (traceG t) \<and> list_all is_fin (traceT t))"

text \<open>
  A chart for examples, in its initial zoom and default height: channel A holds two zero
  samples, the other channels are empty, and three bases have their peaks at the scans 4,
  9 and 15.
\<close>

definition exampleChart :: SangerChart where
  "exampleChart =
     \<lparr>chartTrace = Some \<lparr>traceA = [Fin 0, Fin 0], traceC = [], traceG = [], traceT = [],
                          peakLocations = [4, 9, 15]\<rparr>,
      zoomX = Fin 10, zoomY = Fin 1, height = Fin 150, isReverse = False,
      staticMode = False, containerWidth = Some (Fin 800), scrollRequest = None,
      highlightConfigs = []\<rparr>"

text \<open>The same chart over a trace with 130000 zero samples in channel A.\<close>

definition longTrace :: Trace where
  "longTrace =
     \<lparr>traceA = replicate 130000 (Fin 0), traceC = [], traceG = [], traceT = [],
      peakLocations = [4, 9, 15]\<rparr>"

definition longChart :: SangerChart where
  "longChart = exampleChart\<lparr>chartTrace := Some longTrace\<rparr>"

text \<open>
  A highlight request as \<^verbatim>\<open>highlightRefPos\<close> builds it from the first Sanger position of an
  alignment entry, here base 7 of a read with three bases.
\<close>

definition exampleHighlight :: HighlightConfig where
  "exampleHighlight = \<lparr>hcPos = 7, hcColor = ''rgba(255, 0, 0, 0.8)'', hcLabel = Some ''1''\<rparr>"

section \<open>Properties of rounding\<close>

lemma floor_log2_bounds:
  assumes "0 < x"
  shows "2 powi (floor_log2 x) \<le> x \<and> x < 2 powi (floor_log2 x + 1)"
proof (cases "1 \<le> x")
  case True
  let ?n = "\<lfloor>x\<rfloor>"
  have n: "0 < ?n" using True by linarith
  from bitlen_bounds[OF n] have b: "2 ^ nat (bitlen ?n - 1) \<le> ?n" "?n < 2 ^ nat (bitlen ?n)"
    by auto
  have b1: "1 \<le> bitlen ?n" using n by (auto simp: bitlen_alt_def)
  have "(2::real) powi (bitlen ?n - 1) = 2 ^ nat (bitlen ?n - 1)"
    using b1 by (simp add: power_int_def)
  also have "\<dots> = of_int (2 ^ nat (bitlen ?n - 1))" by simp
  also have "\<dots> \<le> of_int ?n" using b(1) by (simp only: of_int_le_iff)
  also have "\<dots> \<le> x" by simp
  finally have lo: "2 powi (bitlen ?n - 1) \<le> x" .
  have "?n + 1 \<le> 2 ^ nat (bitlen ?n)" using b(2) by simp
  then have "real_of_int (?n + 1) \<le> real_of_int (2 ^ nat (bitlen ?n))"
    by (simp only: of_int_le_iff)
  then have "real_of_int ?n + 1 \<le> 2 ^ nat (bitlen ?n)" by simp
  moreover have "x < real_of_int ?n + 1" by linarith
  ultimately have "x < 2 ^ nat (bitlen ?n)" by linarith
  also have "\<dots> = 2 powi (bitlen ?n - 1 + 1)" using b1 by (simp add: power_int_def)
  finally show ?thesis using lo True by (simp add: floor_log2_def)
next
  case False
  let ?y = "1 / x"
  let ?m = "\<lceil>?y\<rceil> - 1"
  have y: "1 < ?y" using False assms by simp
  have m: "0 < ?m" using y by linarith
  from bitlen_bounds[OF m] have b: "2 ^ nat (bitlen ?m - 1) \<le> ?m" "?m < 2 ^ nat (bitlen ?m)"
    by auto
  have b1: "1 \<le> bitlen ?m" using m by (auto simp: bitlen_alt_def)
  have "?m + 1 \<le> 2 ^ nat (bitlen ?m)" using b(2) by simp
  then have "real_of_int (?m + 1) \<le> real_of_int (2 ^ nat (bitlen ?m))"
    by (simp only: of_int_le_iff)
  then have "real_of_int ?m + 1 \<le> 2 ^ nat (bitlen ?m)" by simp
  moreover have "?y \<le> real_of_int ?m + 1" by simp
  ultimately have yle: "?y \<le> 2 ^ nat (bitlen ?m)" by linarith
  have "real_of_int (2 ^ nat (bitlen ?m - 1)) \<le> real_of_int ?m"
    using b(1) by (simp only: of_int_le_iff)
  moreover have "real_of_int ?m < ?y" by linarith
  ultimately have ylt: "2 ^ nat (bitlen ?m - 1) < ?y" by simp
  have p: "(2::real) powi (- bitlen ?m) = 1 / 2 ^ nat (bitlen ?m)"
    using b1 by (simp add: power_int_def field_simps)
  have "1 / 2 ^ nat (bitlen ?m) \<le> x"
    using yle assms by (simp add: field_simps)
  then have lo: "2 powi (- bitlen ?m) \<le> x" using p by simp
  have q: "(2::real) powi (- bitlen ?m + 1) = 1 / 2 ^ nat (bitlen ?m - 1)"
    using b1 by (simp add: power_int_def field_simps nat_diff_distrib)
  have "x < 1 / 2 ^ nat (bitlen ?m - 1)"
    using ylt assms by (simp add: field_simps)
  then have hi: "x < 2 powi (- bitlen ?m + 1)" using q by simp
  show ?thesis using lo hi False by (simp add: floor_log2_def)
qed


lemma powi2_strict_mono: "(2::real) powi a < 2 powi b \<longleftrightarrow> a < b"
proof
  assume "a < b"
  then show "(2::real) powi a < 2 powi b" by (intro power_int_strict_increasing) simp_all
next
  assume l: "(2::real) powi a < 2 powi b"
  show "a < b"
  proof (rule ccontr)
    assume "\<not> a < b"
    then have "b \<le> a" by simp
    then have "(2::real) powi b \<le> 2 powi a" by (intro power_int_increasing) simp_all
    then show False using l by simp
  qed
qed

lemma floor_log2_less: "0 < x \<Longrightarrow> x < 2 powi j \<Longrightarrow> floor_log2 x < j"
  using floor_log2_bounds[of x] powi2_strict_mono[of "floor_log2 x" j] by linarith

lemma floor_log2_ge: "0 < x \<Longrightarrow> 2 powi j \<le> x \<Longrightarrow> j \<le> floor_log2 x"
  using floor_log2_bounds[of x] powi2_strict_mono[of j "floor_log2 x + 1"] by linarith

lemma floor_log2_eq: "2 powi k \<le> x \<Longrightarrow> x < 2 powi (k + 1) \<Longrightarrow> floor_log2 x = k"
proof -
  assume a: "2 powi k \<le> x" "x < 2 powi (k + 1)"
  have "(0::real) < 2 powi k" by simp
  then have "0 < x" using a(1) by linarith
  then show ?thesis using floor_log2_less[of x "k + 1"] floor_log2_ge[of x k] a by linarith
qed

lemma round_ties_even_int: "round_ties_even (of_int n) = n"
  by (simp add: round_ties_even_def)

lemma round_ties_even_le: "y \<le> of_int n \<Longrightarrow> round_ties_even y \<le> n"
  unfolding round_ties_even_def Let_def
  by (auto simp: floor_le_iff; linarith)

lemma round_ties_even_ge: "of_int n \<le> y \<Longrightarrow> n \<le> round_ties_even y"
  unfolding round_ties_even_def Let_def
  by (auto simp: le_floor_iff; linarith)

lemma round_double_not_NaN: "round_double x \<noteq> NaN"
  by (simp add: round_double_def Let_def)


lemma ulp_exponent_le:
  assumes "x \<noteq> 0" "- 1074 \<le> k" "\<bar>x\<bar> < 2 powi (k + 53)"
  shows "max (floor_log2 \<bar>x\<bar>) (- 1022) - 52 \<le> k"
  using floor_log2_less[of "\<bar>x\<bar>" "k + 53"] assms by simp

lemma round_double_exact:
  assumes x: "x = of_int m * 2 powi k" and k: "- 1074 \<le> k"
    and b: "\<bar>x\<bar> < 2 powi (k + 53)" and f: "\<bar>x\<bar> < 2 ^ 1024"
  shows "round_double x = Fin x"
proof (cases "x = 0")
  case True
  then show ?thesis by (simp add: round_double_def)
next
  case False
  define e where "e = max (floor_log2 \<bar>x\<bar>) (- 1022) - 52"
  have ek: "e \<le> k" unfolding e_def by (rule ulp_exponent_le[OF False k b])
  have "(2::real) powi k = 2 powi (k - e) * 2 powi e"
    by (simp add: power_int_add[symmetric])
  also have "(2::real) powi (k - e) = of_int (2 ^ nat (k - e))"
    using ek by (simp add: power_int_def)
  finally have pk: "(2::real) powi k = of_int (2 ^ nat (k - e)) * 2 powi e" .
  have y: "x / 2 powi e = of_int (m * 2 ^ nat (k - e))"
    unfolding x pk by simp
  have r: "of_int (round_ties_even (x / 2 powi e)) * 2 powi e = x"
    unfolding y round_ties_even_int unfolding x pk by simp
  show ?thesis
    using False f unfolding round_double_def Let_def e_def[symmetric] r by simp
qed

lemma round_double_int:
  assumes "\<bar>n\<bar> \<le> 2 ^ 53"
  shows "round_double (of_int n) = Fin (of_int n)"
proof (cases "\<bar>n\<bar> < 2 ^ 53")
  case True
  have "\<bar>real_of_int n\<bar> < real_of_int (2 ^ 53)"
    using True by (simp only: of_int_abs[symmetric] of_int_less_iff)
  then have b: "\<bar>real_of_int n\<bar> < 2 ^ 53" by simp
  show ?thesis
    by (rule round_double_exact[where m = n and k = 0]) (use b in simp_all)
next
  case False
  then have n: "n = 2 ^ 53 \<or> n = - (2 ^ 53)" using assms by linarith
  then have h: "real_of_int n = of_int (n div 2) * 2 powi 1" by auto
  have b: "\<bar>real_of_int n\<bar> = 2 ^ 53" using n by auto
  show ?thesis
    by (rule round_double_exact[where m = "n div 2" and k = 1]) (use h b in simp_all)
qed

lemma round_double_half:
  assumes "\<bar>n\<bar> < 2 ^ 53"
  shows "round_double (of_int n / 2) = Fin (of_int n / 2)"
proof -
  have "\<bar>real_of_int n\<bar> < real_of_int (2 ^ 53)"
    using assms by (simp only: of_int_abs[symmetric] of_int_less_iff)
  then have b: "\<bar>real_of_int n\<bar> < 2 ^ 53" by simp
  show ?thesis
    by (rule round_double_exact[where m = n and k = "- 1"])
       (use b in \<open>simp_all add: power_int_minus\<close>)
qed

lemma round_double_nonpos:
  assumes "x \<le> 0"
  shows "round_double x = NegInf \<or> (\<exists>r. round_double x = Fin r \<and> r \<le> 0)"
proof (cases "x = 0")
  case True
  then show ?thesis by (simp add: round_double_def)
next
  case False
  define e where "e = max (floor_log2 \<bar>x\<bar>) (- 1022) - 52"
  have "x / 2 powi e \<le> of_int 0" using assms by (simp add: divide_nonpos_pos)
  then have "round_ties_even (x / 2 powi e) \<le> 0" by (rule round_ties_even_le)
  then have "of_int (round_ties_even (x / 2 powi e)) * 2 powi e \<le> (0::real)"
    by (simp add: mult_nonpos_nonneg)
  then show ?thesis
    using False assms unfolding round_double_def Let_def e_def[symmetric] by auto
qed

lemma round_double_nonneg:
  assumes "0 \<le> x"
  shows "round_double x = PosInf \<or> (\<exists>r. round_double x = Fin r \<and> 0 \<le> r)"
proof (cases "x = 0")
  case True
  then show ?thesis by (simp add: round_double_def)
next
  case False
  define e where "e = max (floor_log2 \<bar>x\<bar>) (- 1022) - 52"
  have "of_int 0 \<le> x / 2 powi e" using assms by simp
  then have "0 \<le> round_ties_even (x / 2 powi e)" by (rule round_ties_even_ge)
  then have "(0::real) \<le> of_int (round_ties_even (x / 2 powi e)) * 2 powi e"
    by simp
  then show ?thesis
    using False assms unfolding round_double_def Let_def e_def[symmetric] by auto
qed

lemma round_double_overflow:
  assumes "2 ^ 1024 \<le> x"
  shows "round_double x = PosInf"
proof -
  have "(0::real) < 2 ^ 1024" by simp
  then have x0: "0 < x" using assms by linarith
  define fl where "fl = floor_log2 \<bar>x\<bar>"
  have "(2::real) powi 1024 \<le> \<bar>x\<bar>" using assms x0 by simp
  then have fl: "1024 \<le> fl" unfolding fl_def using x0 by (intro floor_log2_ge) simp_all
  define e where "e = max fl (- 1022) - 52"
  have e: "e = fl - 52" using fl by (simp add: e_def)
  have lo: "2 powi fl \<le> x" using floor_log2_bounds[of "\<bar>x\<bar>"] x0 by (simp add: fl_def)
  have split: "(2::real) powi fl = of_int (2 ^ 52) * 2 powi e"
    using power_int_add[of "2::real" e 52] by (simp add: e)
  then have "of_int (2 ^ 52) * 2 powi e \<le> x" using lo by simp
  then have "of_int (2 ^ 52) \<le> x / 2 powi e" by (simp add: pos_le_divide_eq)
  then have "2 ^ 52 \<le> round_ties_even (x / 2 powi e)" by (rule round_ties_even_ge)
  then have rt: "real_of_int (2 ^ 52) \<le> real_of_int (round_ties_even (x / 2 powi e))"
    by (simp only: of_int_le_iff)
  have "(2::real) ^ 1024 = 2 powi 1024" by simp
  also have "\<dots> \<le> 2 powi fl" using fl by (intro power_int_increasing) simp_all
  also have "\<dots> = real_of_int (2 ^ 52) * 2 powi e" by (rule split)
  also have "\<dots> \<le> real_of_int (round_ties_even (x / 2 powi e)) * 2 powi e"
    using rt by (intro mult_right_mono) simp_all
  finally have "(2::real) ^ 1024 \<le> real_of_int (round_ties_even (x / 2 powi e)) * 2 powi e" .
  then have "(2::real) ^ 1024 \<le> \<bar>real_of_int (round_ties_even (x / 2 powi e)) * 2 powi e\<bar>"
    by (rule order_trans) (rule abs_ge_self)
  then show ?thesis
    using x0 unfolding round_double_def Let_def e_def[symmetric] fl_def[symmetric]
    by (simp add: e_def fl_def)
qed

lemma round_double_finite:
  assumes "\<bar>x\<bar> < 2 ^ 1023"
  shows "is_fin (round_double x)"
proof (cases "x = 0")
  case True
  then show ?thesis by (simp add: round_double_def is_fin_def)
next
  case False
  define fl where "fl = floor_log2 \<bar>x\<bar>"
  define e where "e = max fl (- 1022) - 52"
  have x0: "0 < \<bar>x\<bar>" using False by simp
  have "\<bar>x\<bar> < 2 powi 1023" using assms by simp
  then have "fl < 1023" unfolding fl_def by (rule floor_log2_less[OF x0])
  then have e970: "e + 53 \<le> 1023" by (simp add: e_def)
  have "fl + 1 \<le> e + 53" by (simp add: e_def)
  then have "(2::real) powi (fl + 1) \<le> 2 powi (e + 53)"
    by (intro power_int_increasing) simp_all
  then have xb: "\<bar>x\<bar> < 2 powi (e + 53)"
    using floor_log2_bounds[OF x0] by (simp add: fl_def)
  have split: "(2::real) powi (e + 53) = of_int (2 ^ 53) * 2 powi e"
    using power_int_add[of "2::real" e 53] by simp
  then have ub: "\<bar>x\<bar> / 2 powi e < of_int (2 ^ 53)" using xb by (simp add: pos_divide_less_eq)
  have d1: "x / 2 powi e \<le> \<bar>x\<bar> / 2 powi e" by (intro divide_right_mono) simp_all
  have "(- \<bar>x\<bar>) / 2 powi e \<le> x / 2 powi e" by (intro divide_right_mono) simp_all
  then have d2: "- (\<bar>x\<bar> / 2 powi e) \<le> x / 2 powi e" by simp
  have yb: "x / 2 powi e \<le> of_int (2 ^ 53)" "of_int (- (2 ^ 53)) \<le> x / 2 powi e"
    using ub d1 d2 by simp_all
  have "round_ties_even (x / 2 powi e) \<le> 2 ^ 53" "- (2 ^ 53) \<le> round_ties_even (x / 2 powi e)"
    using round_ties_even_le[OF yb(1)] round_ties_even_ge[OF yb(2)] by simp_all
  then have "\<bar>round_ties_even (x / 2 powi e)\<bar> \<le> 2 ^ 53" by linarith
  then have "\<bar>real_of_int (round_ties_even (x / 2 powi e))\<bar> \<le> real_of_int (2 ^ 53)"
    by (simp only: of_int_abs[symmetric] of_int_le_iff)
  then have "\<bar>real_of_int (round_ties_even (x / 2 powi e))\<bar> * 2 powi e \<le> real_of_int (2 ^ 53) * 2 powi e"
    by (intro mult_right_mono) simp_all
  also have "\<dots> = 2 powi (e + 53)" using split by simp
  also have "\<dots> \<le> 2 powi 1023" using e970 by (intro power_int_increasing) simp_all
  also have "\<dots> < 2 ^ 1024" by simp
  finally have "\<bar>real_of_int (round_ties_even (x / 2 powi e)) * 2 powi e\<bar> < (2::real) ^ 1024"
    by (simp add: abs_mult)
  then show ?thesis
    using False unfolding round_double_def Let_def e_def[symmetric] fl_def[symmetric]
    by (simp add: is_fin_def e_def fl_def)
qed

lemma round_double_normal:
  assumes "2 powi k \<le> \<bar>x\<bar>" "\<bar>x\<bar> < 2 powi (k + 1)" "- 1022 \<le> k"
  shows "round_double x =
     (let r = of_int (round_ties_even (x / 2 powi (k - 52))) * 2 powi (k - 52)
      in if 2 ^ 1024 \<le> \<bar>r\<bar> then (if x < 0 then NegInf else PosInf) else Fin r)"
proof -
  have fl: "floor_log2 \<bar>x\<bar> = k" using assms(1,2) by (rule floor_log2_eq)
  have "(0::real) < 2 powi k" by simp
  then have "0 < \<bar>x\<bar>" using assms(1) by linarith
  then have "x \<noteq> 0" by simp
  then show ?thesis using assms(3) by (simp add: round_double_def fl Let_def)
qed


lemma round_double_le_double:
  assumes x: "0 < x" and le: "x \<le> M" and M: "round_double M = Fin M"
  shows "\<exists>r. round_double x = Fin r \<and> 0 \<le> r \<and> r \<le> M"
proof -
  have M0: "0 < M" using x le by linarith
  define eM where "eM = max (floor_log2 \<bar>M\<bar>) (- 1022) - 52"
  define K where "K = round_ties_even (M / 2 powi eM)"
  define ex where "ex = max (floor_log2 \<bar>x\<bar>) (- 1022) - 52"
  have MK: "M = of_int K * 2 powi eM" and Mfin: "\<not> 2 ^ 1024 \<le> \<bar>M\<bar>"
    using M M0 unfolding round_double_def Let_def eM_def[symmetric] K_def[symmetric]
    by (auto split: if_splits)
  have "2 powi (floor_log2 x) \<le> M" using floor_log2_bounds[OF x] le by linarith
  then have "floor_log2 x \<le> floor_log2 M" by (rule floor_log2_ge[OF M0])
  then have e: "ex \<le> eM" using x M0 by (simp add: ex_def eM_def)
  have "(2::real) powi eM = 2 powi (eM - ex) * 2 powi ex"
    by (simp add: power_int_add[symmetric])
  also have "(2::real) powi (eM - ex) = of_int (2 ^ nat (eM - ex))"
    using e by (simp add: power_int_def)
  finally have pk: "(2::real) powi eM = of_int (2 ^ nat (eM - ex)) * 2 powi ex" .
  have My: "M / 2 powi ex = of_int (K * 2 ^ nat (eM - ex))"
    by (subst MK, subst pk) simp
  have "x / 2 powi ex \<le> M / 2 powi ex" using le by (intro divide_right_mono) simp_all
  then have "x / 2 powi ex \<le> of_int (K * 2 ^ nat (eM - ex))" by (simp only: My)
  then have "round_ties_even (x / 2 powi ex) \<le> K * 2 ^ nat (eM - ex)"
    by (rule round_ties_even_le)
  then have "real_of_int (round_ties_even (x / 2 powi ex)) \<le> real_of_int (K * 2 ^ nat (eM - ex))"
    by (simp only: of_int_le_iff)
  then have "real_of_int (round_ties_even (x / 2 powi ex)) * 2 powi ex
      \<le> real_of_int (K * 2 ^ nat (eM - ex)) * 2 powi ex"
    by (intro mult_right_mono) simp_all
  also have "\<dots> = M / 2 powi ex * 2 powi ex" by (simp only: My)
  also have "\<dots> = M" by simp
  finally have up: "real_of_int (round_ties_even (x / 2 powi ex)) * 2 powi ex \<le> M" .
  have "of_int 0 \<le> x / 2 powi ex" using x by simp
  then have "0 \<le> round_ties_even (x / 2 powi ex)" by (rule round_ties_even_ge)
  then have lo: "0 \<le> real_of_int (round_ties_even (x / 2 powi ex)) * 2 powi ex" by simp
  have "\<not> 2 ^ 1024 \<le> \<bar>real_of_int (round_ties_even (x / 2 powi ex)) * 2 powi ex\<bar>"
    using up lo Mfin M0 by linarith
  then show ?thesis
    using x up lo unfolding round_double_def Let_def ex_def[symmetric] by simp
qed

lemma round_double_numeral [simp]:
  "numeral n \<le> (2::int) ^ 53 \<Longrightarrow> round_double (numeral n) = Fin (numeral n)"
  using round_double_int[of "numeral n"] by simp

lemma round_double_neg_numeral [simp]:
  "numeral n \<le> (2::int) ^ 53 \<Longrightarrow> round_double (- numeral n) = Fin (- numeral n)"
  using round_double_int[of "- numeral n"] by simp

lemma round_double_0 [simp]: "round_double 0 = Fin 0"
  by (simp add: round_double_def)

lemma round_double_1 [simp]: "round_double 1 = Fin 1"
  using round_double_int[of 1] by simp

lemma round_double_of_int:
  "\<bar>n\<bar> \<le> 2 ^ 53 \<Longrightarrow> round_double (of_int n) = Fin (of_int n)"
  by (rule round_double_int)

lemma round_double_bounded:
  assumes "round_double x = Fin x"
  shows "\<bar>x\<bar> < 2 ^ 1024"
proof (cases "x = 0")
  case True
  then show ?thesis by simp
next
  case False
  then show ?thesis using assms
    unfolding round_double_def Let_def by (auto split: if_splits)
qed

lemma round_double_cases:
  obtains "round_double x = NegInf" | r where "round_double x = Fin r" | "round_double x = PosInf"
  using round_double_not_NaN[of x] by (cases "round_double x") auto

section \<open>Properties of the viewport state\<close>

lemmas js_defs = js_le_def js_max_def js_min_def js_sub_def is_fin_def

lemma clamp_idem:
  "js_min (js_max (Fin 0) (js_min (js_max (Fin 0) p) (js_max (Fin 0) m))) (js_max (Fin 0) m) =
   js_min (js_max (Fin 0) p) (js_max (Fin 0) m)"
  by (cases p; cases m) (auto simp: js_le_def js_max_def js_min_def)

lemma code_clamp_eq_spec:
  "m \<noteq> NaN \<Longrightarrow>
   js_min (js_max (Fin 0) p) (js_max (Fin 0) m) = spec_clamp p (Fin 0) (js_max (Fin 0) m)"
  by (cases p; cases m) (auto simp: js_le_def js_max_def js_min_def spec_clamp_def)

lemma js_add_Fin_not_NaN: "a \<noteq> NaN \<Longrightarrow> js_add a (Fin b) \<noteq> NaN"
  by (cases a) (simp_all add: round_double_not_NaN)

lemma sub_not_NaN: "is_fin z \<Longrightarrow> m \<noteq> NaN \<Longrightarrow> js_sub m z \<noteq> NaN"
  by (cases z) (simp_all add: is_fin_def js_sub_def js_add_Fin_not_NaN)

lemma is_finE: "is_fin a \<Longrightarrow> \<exists>r. a = Fin r"
  by (cases a) (simp_all add: is_fin_def)

text \<open>
  Claim C5. For every state and every input \<open>p\<close>, \<open>setPosition p\<close> leaves \<open>zoom\<close>,
  \<open>maxPosition\<close> and the highlight unchanged and sets \<open>position\<close> to
  \<open>clamp p 0 (max 0 (maxPosition - zoom))\<close>, where \<open>clamp\<close> moves its argument into the
  interval; the difference \<open>maxPosition - zoom\<close> has a value as soon as \<open>zoom\<close> is finite
  and \<open>maxPosition\<close> is a number (finite or infinite). With \<open>maxPosition = 1000\<close> and
  \<open>zoom = 100\<close>, \<open>setPosition 950\<close> gives position 900.
\<close>

theorem setPosition_clamps:
  "zoom (setPosition p s) = zoom s \<and> maxPosition (setPosition p s) = maxPosition s \<and>
   highlightedRange (setPosition p s) = highlightedRange s \<and>
   (is_fin (zoom s) \<and> maxPosition s \<noteq> NaN \<longrightarrow>
      position (setPosition p s) =
        spec_clamp p (Fin 0) (js_max (Fin 0) (js_sub (maxPosition s) (zoom s)))) \<and>
   position (setPosition (Fin 950) (s\<lparr>zoom := Fin 100, maxPosition := Fin 1000\<rparr>)) = Fin 900"
proof -
  have "position (setPosition p s) =
        spec_clamp p (Fin 0) (js_max (Fin 0) (js_sub (maxPosition s) (zoom s)))"
    if "is_fin (zoom s)" "maxPosition s \<noteq> NaN"
    using sub_not_NaN[OF that] by (simp add: setPosition_def code_clamp_eq_spec)
  moreover have
    "position (setPosition (Fin 950) (s\<lparr>zoom := Fin 100, maxPosition := Fin 1000\<rparr>)) = Fin 900"
    by (simp add: setPosition_def js_defs)
  ultimately show ?thesis by (simp add: setPosition_def)
qed

theorem setPosition_clamps_witness:
  "is_fin (zoom (initialTimeline\<lparr>maxPosition := Fin 1000\<rparr>)) \<and>
   maxPosition (initialTimeline\<lparr>maxPosition := Fin 1000\<rparr>) \<noteq> NaN \<and>
   position (setPosition (Fin 950) (initialTimeline\<lparr>maxPosition := Fin 1000\<rparr>)) = Fin 900"
  using setPosition_clamps[of "Fin 950" "initialTimeline\<lparr>maxPosition := Fin 1000\<rparr>"]
  by (simp add: initialTimeline_def is_fin_def spec_clamp_def js_defs)

lemma js_sub_int:
  "\<bar>j - i\<bar> \<le> 2 ^ 53 \<Longrightarrow>
   js_sub (Fin (of_int j)) (Fin (of_int i)) = Fin (of_int (j - i))"
  using round_double_int[of "j - i"] by (simp add: js_sub_def)

lemma js_sub_nonpos:
  "y \<le> x \<Longrightarrow> js_max (Fin 1) (js_sub (Fin y) (Fin x)) = Fin 1"
  using round_double_nonpos[of "y - x"] by (auto simp: js_sub_def js_max_def)

text \<open>
  Claim C6, as amended. \<open>setRange start end\<close> sets \<open>zoom\<close> to \<^verbatim>\<open>Math.max(1, end - start)\<close> and
  \<open>position\<close> to \<open>start\<close>, then applies the rule of \<open>setPosition\<close> to that position under
  the new zoom, for all arguments. The difference is a difference of doubles: for integers
  \<open>start = i\<close> and \<open>end = j\<close> that are at most \<open>2 ^ 53\<close> in magnitude, as is \<open>j - i\<close>, it is
  exact, the zoom is the number \<open>max 1 (j - i)\<close> and the position is \<open>i\<close> clamped into
  \<open>[0, max 0 (maxPosition - zoom)]\<close>. For all finite \<open>start = x\<close> and \<open>end = y\<close> with \<open>y \<le> x\<close>
  the zoom is 1.
\<close>

theorem setRange_zoom_and_position:
  "setRange a b s = setPosition a (s\<lparr>zoom := js_max (Fin 1) (js_sub b a), position := a\<rparr>) \<and>
   zoom (setRange a b s) = js_max (Fin 1) (js_sub b a) \<and>
   maxPosition (setRange a b s) = maxPosition s \<and>
   (\<bar>i\<bar> \<le> 2 ^ 53 \<and> \<bar>j\<bar> \<le> 2 ^ 53 \<and> \<bar>j - i\<bar> \<le> 2 ^ 53 \<longrightarrow>
      zoom (setRange (Fin (of_int i)) (Fin (of_int j)) s) = Fin (of_int (max 1 (j - i))) \<and>
      (maxPosition s \<noteq> NaN \<longrightarrow>
         position (setRange (Fin (of_int i)) (Fin (of_int j)) s) =
           spec_clamp (Fin (of_int i)) (Fin 0)
             (js_max (Fin 0) (js_sub (maxPosition s) (Fin (of_int (max 1 (j - i)))))))) \<and>
   (y \<le> x \<longrightarrow> zoom (setRange (Fin x) (Fin y) s) = Fin 1)"
proof -
  have z: "js_max (Fin 1) (js_sub (Fin (of_int j)) (Fin (of_int i))) = Fin (of_int (max 1 (j - i)))"
    if "\<bar>j - i\<bar> \<le> 2 ^ 53"
    by (simp add: js_sub_int[OF that] js_max_def max_def)
  have p: "position (setRange (Fin (of_int i)) (Fin (of_int j)) s) =
        spec_clamp (Fin (of_int i)) (Fin 0)
          (js_max (Fin 0) (js_sub (maxPosition s) (Fin (of_int (max 1 (j - i))))))"
    if "\<bar>j - i\<bar> \<le> 2 ^ 53" "maxPosition s \<noteq> NaN"
    using sub_not_NaN[of "Fin (of_int (max 1 (j - i)))" "maxPosition s"] that(2)
    by (simp add: setRange_def setPosition_def z[OF that(1)] code_clamp_eq_spec is_fin_def Let_def)
  have o: "zoom (setRange (Fin x) (Fin y) s) = Fin 1" if "y \<le> x"
    by (simp add: setRange_def setPosition_def Let_def js_sub_nonpos[OF that])
  have q: "zoom (setRange (Fin (of_int i)) (Fin (of_int j)) s) = Fin (of_int (max 1 (j - i)))"
    if "\<bar>j - i\<bar> \<le> 2 ^ 53"
    by (simp add: setRange_def setPosition_def Let_def z[OF that])
  show ?thesis
    using p q o by (simp add: setRange_def setPosition_def Let_def)
qed

text \<open>
  The claim as stated, for all integers, fails where the difference is not a double. With
  \<open>start = - 2 ^ 1023\<close> and \<open>end = 2 ^ 1023\<close> the difference overflows: the zoom is
  \<^verbatim>\<open>Infinity\<close> and, in the initial state, the position is NaN. With \<open>start = - 1\<close> and
  \<open>end = 2 ^ 53\<close> the difference \<open>2 ^ 53 + 1\<close> is rounded to \<open>2 ^ 53\<close>.
\<close>

theorem setRange_counterexample:
  "zoom (setRange (Fin (of_int (- (2 ^ 1023)))) (Fin (of_int (2 ^ 1023))) initialTimeline) = PosInf \<and>
   position (setRange (Fin (of_int (- (2 ^ 1023)))) (Fin (of_int (2 ^ 1023))) initialTimeline) = NaN \<and>
   zoom (setRange (Fin (of_int (- 1))) (Fin (of_int (2 ^ 53))) initialTimeline) = Fin (2 ^ 53) \<and>
   zoom (setRange (Fin (of_int (- 1))) (Fin (of_int (2 ^ 53))) initialTimeline)
     \<noteq> Fin (of_int (max 1 (2 ^ 53 - (- 1))))"
proof -
  have a: "js_sub (Fin (of_int (2 ^ 1023))) (Fin (of_int (- (2 ^ 1023)))) = PosInf"
    by (simp add: js_sub_def round_double_overflow)
  have b: "js_sub (Fin (of_int (2 ^ 53))) (Fin (of_int (- 1))) = Fin (2 ^ 53)"
    apply (simp add: js_sub_def)
    apply (subst round_double_normal[where k = 53])
    apply (simp_all add: round_ties_even_def Let_def)
    done
  have c: "js_sub PosInf PosInf = NaN" "js_sub PosInf (Fin r) = PosInf" for r
    by (simp_all add: js_sub_def)
  show ?thesis
    by (simp add: setRange_def setPosition_def Let_def initialTimeline_def a[simplified]
        b[simplified] c js_max_def js_min_def)
qed

theorem setRange_zoom_and_position_witness:
  "\<bar>950 :: int\<bar> \<le> 2 ^ 53 \<and> \<bar>1200 :: int\<bar> \<le> 2 ^ 53 \<and> \<bar>1200 - 950 :: int\<bar> \<le> 2 ^ 53 \<and>
   maxPosition (initialTimeline\<lparr>maxPosition := Fin 1000\<rparr>) \<noteq> NaN \<and>
   zoom (setRange (Fin 950) (Fin 1200) (initialTimeline\<lparr>maxPosition := Fin 1000\<rparr>)) = Fin 250 \<and>
   position (setRange (Fin 950) (Fin 1200) (initialTimeline\<lparr>maxPosition := Fin 1000\<rparr>)) = Fin 750 \<and>
   (3 :: real) \<le> 7 \<and>
   zoom (setRange (Fin 7) (Fin 3) (initialTimeline\<lparr>maxPosition := Fin 1000\<rparr>)) = Fin 1"
  using setRange_zoom_and_position[of "Fin 950" "Fin 1200"
      "initialTimeline\<lparr>maxPosition := Fin 1000\<rparr>" 950 1200 3 7]
  by (simp add: initialTimeline_def spec_clamp_def js_defs setRange_def setPosition_def Let_def)

lemma clamp_bounds:
  "p \<noteq> NaN \<Longrightarrow> d \<noteq> NaN \<Longrightarrow>
   js_min (js_max (Fin 0) p) (js_max (Fin 0) d) \<noteq> NaN \<and>
   js_le (Fin 0) (js_min (js_max (Fin 0) p) (js_max (Fin 0) d)) \<and>
   js_le (js_min (js_max (Fin 0) p) (js_max (Fin 0) d)) (js_max (Fin 0) d)"
  by (cases p; cases d) (auto simp: js_le_def js_max_def js_min_def)

lemma setPosition_numbers:
  assumes "viewportNumbers s" and "p \<noteq> NaN"
  shows "viewportNumbers (setPosition p s) \<and>
         js_le (Fin 0) (position (setPosition p s)) \<and>
         js_le (position (setPosition p s))
           (js_max (Fin 0) (js_sub (maxPosition (setPosition p s)) (zoom (setPosition p s))))"
proof -
  have d: "js_sub (maxPosition s) (zoom s) \<noteq> NaN"
    using assms(1) by (simp add: viewportNumbers_def sub_not_NaN)
  from clamp_bounds[OF assms(2) d] assms(1) show ?thesis
    by (simp add: setPosition_def viewportNumbers_def Let_def)
qed

lemma zoom_floor: "is_fin z \<Longrightarrow> is_fin (js_max (Fin 1) z) \<and> js_le (Fin 1) (js_max (Fin 1) z)"
  by (cases z) (auto simp: js_le_def js_max_def is_fin_def)

lemma viewOp_numbers:
  assumes n: "viewportNumbers s" and v: "isViewOp opn" and f: "finiteArgs opn"
    and r: "rangeFinite opn"
  shows "viewportNumbers (applyOp opn s) \<and>
         js_le (Fin 0) (position (applyOp opn s)) \<and>
         js_le (position (applyOp opn s))
           (js_max (Fin 0) (js_sub (maxPosition (applyOp opn s)) (zoom (applyOp opn s))))"
proof (cases opn)
  case (SetZoom z)
  have "viewportNumbers (s\<lparr>zoom := js_max (Fin 1) z\<rparr>)"
    using n f zoom_floor[of z] by (simp add: viewportNumbers_def SetZoom)
  moreover have "position (s\<lparr>zoom := js_max (Fin 1) z\<rparr>) \<noteq> NaN"
    using n by (simp add: viewportNumbers_def)
  ultimately show ?thesis
    using setPosition_numbers[of "s\<lparr>zoom := js_max (Fin 1) z\<rparr>" "position s"]
    by (simp add: SetZoom setZoom_def Let_def)
next
  case (SetPosition p)
  have "p \<noteq> NaN" using f by (auto simp: SetPosition is_fin_def)
  then show ?thesis using setPosition_numbers[OF n] by (simp add: SetPosition)
next
  case (SetRange a b)
  have "viewportNumbers (s\<lparr>zoom := js_max (Fin 1) (js_sub b a), position := a\<rparr>)"
    using n f r zoom_floor[of "js_sub b a"]
    by (auto simp: viewportNumbers_def SetRange is_fin_def)
  moreover have "a \<noteq> NaN" using f by (auto simp: SetRange is_fin_def)
  ultimately show ?thesis
    using setPosition_numbers[of "s\<lparr>zoom := js_max (Fin 1) (js_sub b a), position := a\<rparr>" a]
    by (simp add: SetRange setRange_def Let_def)
next
  case (MoveBy d)
  from f obtain x where x: "d = Fin x" using is_finE by (auto simp: MoveBy)
  have "js_add (position s) d \<noteq> NaN"
    using n by (simp add: x viewportNumbers_def js_add_Fin_not_NaN)
  then show ?thesis using setPosition_numbers[OF n] by (simp add: MoveBy moveBy_def)
qed (use v in simp_all)

lemma room_invariant:
  assumes n: "viewportNumbers s" and a: "js_le (Fin 0) (position s)"
    and b: "js_le (position s) (js_max (Fin 0) (js_sub (maxPosition s) (zoom s)))"
    and e: "exact_room s"
  shows "js_le (js_add (position s) (zoom s)) (maxPosition s)"
proof -
  from e obtain m z where m: "maxPosition s = Fin m" and z: "zoom s = Fin z"
    and zm: "z \<le> m" and d: "js_sub (Fin m) (Fin z) = Fin (m - z)"
    by (auto simp: exact_room_def split: jsnum.splits)
  from a b obtain p where p: "position s = Fin p" and pd: "p \<le> m - z"
    using zm by (cases "position s") (auto simp: m z d js_le_def js_max_def split: if_splits)
  have p0: "0 \<le> p" using a by (auto simp: p js_le_def)
  have z1: "1 \<le> z" using n by (auto simp: viewportNumbers_def z js_le_def)
  have M: "round_double m = Fin m" using n by (simp add: viewportNumbers_def m js_number_def)
  have "0 < p + z" "p + z \<le> m" using p0 z1 pd by linarith+
  from round_double_le_double[OF this M] show ?thesis
    by (auto simp: p z m js_le_def)
qed

lemma runOps_invariant:
  "viewportNumbers s \<Longrightarrow>
   \<forall>opn \<in> set ops. isViewOp opn \<and> finiteArgs opn \<and> rangeFinite opn \<Longrightarrow>
   \<forall>s' \<in> set (runOps ops s).
      viewportNumbers s' \<and> js_le (Fin 0) (position s') \<and>
      js_le (position s') (js_max (Fin 0) (js_sub (maxPosition s') (zoom s')))"
proof (induction ops arbitrary: s)
  case Nil
  then show ?case by simp
next
  case (Cons opn ops)
  have h: "viewportNumbers (applyOp opn s) \<and>
         js_le (Fin 0) (position (applyOp opn s)) \<and>
         js_le (position (applyOp opn s))
           (js_max (Fin 0) (js_sub (maxPosition (applyOp opn s)) (zoom (applyOp opn s))))"
    using Cons.prems by (intro viewOp_numbers) simp_all
  from Cons.IH[of "applyOp opn s"] h Cons.prems(2) show ?case by simp
qed

text \<open>
  Claim C1, as amended. The clamp is \<open>min (max 0 p) (max 0 (maxPosition - zoom))\<close>, so a
  window wider than the sequence stays at position 0 and overhangs the bound; a position
  that is NaN stays NaN when the zoom changes; and the bounds are computed in doubles. What
  holds after every call of a sequence of \<open>setPosition\<close>, \<open>setZoom\<close>, \<open>setRange\<close> and
  \<open>moveBy\<close> with finite arguments and ranges of finite length, from any state whose zoom is
  finite and at least 1 and whose position and bound are numbers: \<open>0 \<le> position\<close> and
  \<open>position \<le> max 0 (maxPosition - zoom)\<close>; and the invariant of the specification
  whenever the bound is infinite, or the window fits under it and \<open>maxPosition - zoom\<close> is
  computed exactly.
\<close>

theorem viewport_invariant_after_calls:
  assumes "viewportNumbers s"
    and "\<forall>opn \<in> set ops. isViewOp opn \<and> finiteArgs opn \<and> rangeFinite opn"
  shows "\<forall>s' \<in> set (runOps ops s).
           js_le (Fin 0) (position s') \<and>
           js_le (position s') (js_max (Fin 0) (js_sub (maxPosition s') (zoom s'))) \<and>
           ((is_fin (maxPosition s') \<longrightarrow> exact_room s') \<longrightarrow> spec_invariant s')"
proof
  fix s' assume "s' \<in> set (runOps ops s)"
  with runOps_invariant[OF assms]
  have n: "viewportNumbers s'" and a: "js_le (Fin 0) (position s')"
    and b: "js_le (position s') (js_max (Fin 0) (js_sub (maxPosition s') (zoom s')))"
    by blast+
  have "spec_invariant s'" if "is_fin (maxPosition s') \<longrightarrow> exact_room s'"
    using that a room_invariant[OF n a b] by (auto simp: spec_invariant_def)
  with a b show "js_le (Fin 0) (position s') \<and>
           js_le (position s') (js_max (Fin 0) (js_sub (maxPosition s') (zoom s'))) \<and>
           ((is_fin (maxPosition s') \<longrightarrow> exact_room s') \<longrightarrow> spec_invariant s')"
    by blast
qed

text \<open>
  The invariant as stated fails in four ways. After \<open>setMaxPosition 1000\<close> the state
  satisfies it, and \<open>setZoom 2000\<close> then leaves position 0 with
  \<open>position + zoom = 2000 > 1000\<close>. A click on the left edge of the minimap while the bound
  is still infinite stores the position \<^verbatim>\<open>0 * Infinity\<close>, which is NaN, and \<open>setZoom 20\<close>
  keeps it. \<open>setRange (- 2 ^ 1023) (2 ^ 1023)\<close> overflows the zoom to \<^verbatim>\<open>Infinity\<close> and leaves
  the position NaN. With bound \<open>2 ^ 52 + 3\<close> and zoom \<open>3 / 2\<close> the room \<open>2 ^ 52 + 3 / 2\<close> is
  rounded up to \<open>2 ^ 52 + 2\<close>, where \<open>setPosition\<close> puts the position, and \<open>position + zoom\<close>
  is rounded up to \<open>2 ^ 52 + 4\<close>, beyond the bound.
\<close>

theorem viewport_invariant_counterexample:
  "spec_invariant (setMaxPosition (Fin 1000) initialTimeline) \<and>
   \<not> spec_invariant (applyOp (SetZoom (Fin 2000)) (setMaxPosition (Fin 1000) initialTimeline)) \<and>
   position (handleInteraction (Fin 0) (Fin 0) (Fin 100) initialTimeline) = NaN \<and>
   \<not> spec_invariant
       (applyOp (SetZoom (Fin 20)) (handleInteraction (Fin 0) (Fin 0) (Fin 100) initialTimeline)) \<and>
   \<not> spec_invariant
       (applyOp (SetRange (Fin (of_int (- (2 ^ 1023)))) (Fin (of_int (2 ^ 1023)))) initialTimeline) \<and>
   position (applyOp (SetPosition (Fin (2 ^ 52 + 3)))
       \<lparr>zoom = Fin (3 / 2), position = Fin 0, maxPosition = Fin (2 ^ 52 + 3),
        highlightedRange = None\<rparr>) = Fin (2 ^ 52 + 2) \<and>
   \<not> spec_invariant (applyOp (SetPosition (Fin (2 ^ 52 + 3)))
       \<lparr>zoom = Fin (3 / 2), position = Fin 0, maxPosition = Fin (2 ^ 52 + 3),
        highlightedRange = None\<rparr>)"
proof -
  have c: "js_sub PosInf PosInf = NaN" "js_sub PosInf (Fin r) = PosInf" for r
    by (simp_all add: js_sub_def)
  have s1: "setMaxPosition (Fin 1000) initialTimeline =
      \<lparr>zoom = Fin 100, position = Fin 0, maxPosition = Fin 1000, highlightedRange = None\<rparr>"
    by (simp add: setMaxPosition_def setPosition_def initialTimeline_def js_defs Let_def)
  have 1: "spec_invariant (setMaxPosition (Fin 1000) initialTimeline)"
    unfolding s1 by (simp add: spec_invariant_def js_defs)
  have 2: "\<not> spec_invariant (applyOp (SetZoom (Fin 2000)) (setMaxPosition (Fin 1000) initialTimeline))"
    unfolding s1 by (simp add: setZoom_def setPosition_def spec_invariant_def js_defs Let_def)
  have s3: "handleInteraction (Fin 0) (Fin 0) (Fin 100) initialTimeline =
      \<lparr>zoom = Fin 100, position = NaN, maxPosition = PosInf, highlightedRange = None\<rparr>"
    by (simp add: handleInteraction_def setPosition_def initialTimeline_def js_defs Let_def
        js_inf_def js_sign_def)
  have 3: "position (handleInteraction (Fin 0) (Fin 0) (Fin 100) initialTimeline) = NaN"
    unfolding s3 by simp
  have 4: "\<not> spec_invariant
       (applyOp (SetZoom (Fin 20)) (handleInteraction (Fin 0) (Fin 0) (Fin 100) initialTimeline))"
    unfolding s3 by (simp add: setZoom_def setPosition_def spec_invariant_def js_defs Let_def)
  have a: "js_sub (Fin (of_int (2 ^ 1023))) (Fin (of_int (- (2 ^ 1023)))) = PosInf"
    by (simp add: js_sub_def round_double_overflow)
  have 5: "\<not> spec_invariant
       (applyOp (SetRange (Fin (of_int (- (2 ^ 1023)))) (Fin (of_int (2 ^ 1023)))) initialTimeline)"
    by (simp add: setRange_def setPosition_def Let_def initialTimeline_def a[simplified] c
        js_max_def js_min_def spec_invariant_def js_le_def)
  have r1: "js_sub (Fin (2 ^ 52 + 3)) (Fin (3 / 2)) = Fin (2 ^ 52 + 2)"
    apply (simp add: js_sub_def)
    apply (subst round_double_normal[where k = 52])
    apply (simp_all add: round_ties_even_def Let_def)
    done
  have r2: "js_add (Fin (2 ^ 52 + 2)) (Fin (3 / 2)) = Fin (2 ^ 52 + 4)"
    apply simp
    apply (subst round_double_normal[where k = 52])
    apply (simp_all add: round_ties_even_def Let_def)
    done
  have s6: "applyOp (SetPosition (Fin (2 ^ 52 + 3)))
       \<lparr>zoom = Fin (3 / 2), position = Fin 0, maxPosition = Fin (2 ^ 52 + 3),
        highlightedRange = None\<rparr> =
       \<lparr>zoom = Fin (3 / 2), position = Fin (2 ^ 52 + 2), maxPosition = Fin (2 ^ 52 + 3),
        highlightedRange = None\<rparr>"
    by (simp add: setPosition_def Let_def r1[simplified] js_max_def js_min_def)
  have 6: "position (applyOp (SetPosition (Fin (2 ^ 52 + 3)))
       \<lparr>zoom = Fin (3 / 2), position = Fin 0, maxPosition = Fin (2 ^ 52 + 3),
        highlightedRange = None\<rparr>) = Fin (2 ^ 52 + 2)"
    unfolding s6 by simp
  have 7: "\<not> spec_invariant (applyOp (SetPosition (Fin (2 ^ 52 + 3)))
       \<lparr>zoom = Fin (3 / 2), position = Fin 0, maxPosition = Fin (2 ^ 52 + 3),
        highlightedRange = None\<rparr>)"
    unfolding s6 using r2 by (simp add: spec_invariant_def js_le_def is_fin_def)
  from 1 2 3 4 5 6 7 show ?thesis by (intro conjI)
qed

theorem viewport_invariant_after_calls_witness:
  "viewportNumbers (initialTimeline\<lparr>maxPosition := Fin 1000\<rparr>) \<and>
   list_all (\<lambda>opn. isViewOp opn \<and> finiteArgs opn \<and> rangeFinite opn)
     [SetZoom (Fin 300), MoveBy (Fin 800), SetRange (Fin 10) (Fin 2000), SetPosition (Fin 5)] \<and>
   runOps [SetZoom (Fin 300), MoveBy (Fin 800), SetRange (Fin 10) (Fin 2000), SetPosition (Fin 5)]
       (initialTimeline\<lparr>maxPosition := Fin 1000\<rparr>) =
     [\<lparr>zoom = Fin 300, position = Fin 0, maxPosition = Fin 1000, highlightedRange = None\<rparr>,
      \<lparr>zoom = Fin 300, position = Fin 700, maxPosition = Fin 1000, highlightedRange = None\<rparr>,
      \<lparr>zoom = Fin 1990, position = Fin 0, maxPosition = Fin 1000, highlightedRange = None\<rparr>,
      \<lparr>zoom = Fin 1990, position = Fin 0, maxPosition = Fin 1000, highlightedRange = None\<rparr>] \<and>
   exact_room \<lparr>zoom = Fin 300, position = Fin 700, maxPosition = Fin 1000, highlightedRange = None\<rparr> \<and>
   spec_invariant
     \<lparr>zoom = Fin 300, position = Fin 700, maxPosition = Fin 1000, highlightedRange = None\<rparr> \<and>
   list_all (\<lambda>s'. js_le (Fin 0) (position s') \<and>
                    js_le (position s') (js_max (Fin 0) (js_sub (maxPosition s') (zoom s'))))
     (runOps [SetZoom (Fin 300), MoveBy (Fin 800), SetRange (Fin 10) (Fin 2000), SetPosition (Fin 5)]
        (initialTimeline\<lparr>maxPosition := Fin 1000\<rparr>))"
proof -
  let ?ops = "[SetZoom (Fin 300), MoveBy (Fin 800), SetRange (Fin 10) (Fin 2000), SetPosition (Fin 5)]"
  let ?s = "initialTimeline\<lparr>maxPosition := Fin 1000\<rparr>"
  let ?s2 = "\<lparr>zoom = Fin 300, position = Fin 700, maxPosition = Fin 1000, highlightedRange = None\<rparr>"
  have n: "viewportNumbers ?s"
    by (simp add: viewportNumbers_def initialTimeline_def js_defs js_number_def)
  have h: "\<forall>opn \<in> set ?ops. isViewOp opn \<and> finiteArgs opn \<and> rangeFinite opn"
    by (simp add: js_defs)
  have r: "runOps ?ops ?s =
     [\<lparr>zoom = Fin 300, position = Fin 0, maxPosition = Fin 1000, highlightedRange = None\<rparr>,
      ?s2,
      \<lparr>zoom = Fin 1990, position = Fin 0, maxPosition = Fin 1000, highlightedRange = None\<rparr>,
      \<lparr>zoom = Fin 1990, position = Fin 0, maxPosition = Fin 1000, highlightedRange = None\<rparr>]"
    by (simp add: setZoom_def moveBy_def setRange_def setPosition_def initialTimeline_def js_defs
        Let_def)
  have e: "exact_room ?s2" by (simp add: exact_room_def js_defs)
  from viewport_invariant_after_calls[OF n h]
  have all: "\<forall>s' \<in> set (runOps ?ops ?s).
           js_le (Fin 0) (position s') \<and>
           js_le (position s') (js_max (Fin 0) (js_sub (maxPosition s') (zoom s'))) \<and>
           ((is_fin (maxPosition s') \<longrightarrow> exact_room s') \<longrightarrow> spec_invariant s')" .
  have "?s2 \<in> set (runOps ?ops ?s)" unfolding r by simp
  with all e have i: "spec_invariant ?s2" by blast
  from all have l: "list_all (\<lambda>s'. js_le (Fin 0) (position s') \<and>
                    js_le (position s') (js_max (Fin 0) (js_sub (maxPosition s') (zoom s'))))
     (runOps ?ops ?s)"
    by (simp only: list_all_iff) blast
  from n h r e i l show ?thesis by (simp only: list_all_iff)
qed

text \<open>
  Claim C4, as amended. Every operation is a total function of the state and its
  arguments, with no failing branch. Applied twice in succession with the same argument,
  \<open>setMaxPosition\<close>, \<open>setZoom\<close>, \<open>setPosition\<close>, \<open>setRange\<close>, \<open>scrollToBoundary\<close>,
  \<open>setHighlight\<close> and \<open>clearHighlight\<close> give the state they give when applied once, for
  every state and every argument.
\<close>

theorem viewport_ops_idempotent:
  "setMaxPosition mx (setMaxPosition mx s) = setMaxPosition mx s \<and>
   setZoom z (setZoom z s) = setZoom z s \<and>
   setPosition p (setPosition p s) = setPosition p s \<and>
   setRange a b (setRange a b s) = setRange a b s \<and>
   scrollToBoundary e (scrollToBoundary e s) = scrollToBoundary e s \<and>
   setHighlight i j (setHighlight i j s) = setHighlight i j s \<and>
   clearHighlight (clearHighlight s) = clearHighlight s"
proof -
  have 1: "setMaxPosition mx (setMaxPosition mx s) = setMaxPosition mx s"
    by (simp add: setMaxPosition_def setPosition_def Let_def clamp_idem)
  have 2: "setZoom z (setZoom z s) = setZoom z s"
    by (cases z) (simp_all add: setZoom_def setPosition_def Let_def clamp_idem js_defs)
  have 3: "setPosition p (setPosition p s) = setPosition p s"
    by (simp add: setPosition_def Let_def)
  have 4: "setRange a b (setRange a b s) = setRange a b s"
    by (simp add: setRange_def setPosition_def Let_def)
  have 5: "scrollToBoundary e (scrollToBoundary e s) = scrollToBoundary e s"
    by (simp add: scrollToBoundary_def setPosition_def Let_def)
  have 6: "setHighlight i j (setHighlight i j s) = setHighlight i j s"
    by (simp add: setHighlight_def)
  have 7: "clearHighlight (clearHighlight s) = clearHighlight s"
    by (simp add: clearHighlight_def)
  from 1 2 3 4 5 6 7 show ?thesis by blast
qed

text \<open>
  \<open>moveBy\<close> is relative to the current position and is not idempotent: from the initial
  state, \<open>moveBy 10\<close> gives position 10 and a second \<open>moveBy 10\<close> gives position 20.
\<close>

theorem moveBy_idempotent_counterexample:
  "moveBy (Fin 10) (moveBy (Fin 10) initialTimeline) \<noteq> moveBy (Fin 10) initialTimeline"
  by (simp add: moveBy_def setPosition_def initialTimeline_def js_defs)

section \<open>Properties of the minimap\<close>

lemma clamp_collapse:
  "d \<noteq> NaN \<Longrightarrow>
   js_min (js_max (Fin 0) (js_max (Fin 0) (js_min v d))) (js_max (Fin 0) d) =
   spec_clamp v (Fin 0) (js_max (Fin 0) d)"
  by (cases v; cases d) (auto simp: js_max_def js_min_def spec_clamp_def)

lemma js_div_pos_not_NaN: "x \<noteq> NaN \<Longrightarrow> 0 < w \<Longrightarrow> js_div x (Fin w) \<noteq> NaN"
  by (cases x) (simp_all add: round_double_not_NaN js_inf_def js_sign_def)

lemma unit_clamp:
  "q \<noteq> NaN \<Longrightarrow> \<exists>r. js_max (Fin 0) (js_min (Fin 1) q) = Fin r \<and> 0 \<le> r \<and> r \<le> 1"
  by (cases q) (auto simp: js_max_def js_min_def)

lemma clampedRatio_unit:
  assumes "is_fin cx" "is_fin l" "0 < w"
  shows "\<exists>r. clampedRatio cx l (Fin w) = Fin r \<and> 0 \<le> r \<and> r \<le> 1"
proof -
  have "cx \<noteq> NaN" using assms(1) by (auto simp: is_fin_def)
  then have "js_sub cx l \<noteq> NaN" using assms(2) by (intro sub_not_NaN)
  then have "js_div (js_sub cx l) (Fin w) \<noteq> NaN" using assms(3) by (rule js_div_pos_not_NaN)
  then show ?thesis unfolding clampedRatio_def by (rule unit_clamp)
qed

text \<open>
  Claim C8, as amended. The handler clamps the click ratio to \<open>[0, 1]\<close> and takes the floor
  of \<^verbatim>\<open>ratio * maxPosition\<close> before it subtracts half the zoom, and each product, quotient
  and difference is a double. For a finite zoom and a bound that is a number, finite or
  infinite, the position becomes \<^verbatim>\<open>Math.floor(ratio * maxPosition) - zoom / 2\<close> clamped to
  \<open>[0, max 0 (maxPosition - zoom)]\<close>; for finite coordinates and a canvas of positive finite
  width the ratio is a number between 0 and 1.
\<close>

theorem minimap_click_position:
  assumes "is_fin (zoom s)" and "maxPosition s \<noteq> NaN"
  shows "position (handleInteraction cx l w s) =
           spec_clamp
             (js_sub (js_floor (js_mul (clampedRatio cx l w) (maxPosition s)))
                (js_div (zoom s) (Fin 2)))
             (Fin 0) (js_max (Fin 0) (js_sub (maxPosition s) (zoom s))) \<and>
         (is_fin cx \<and> is_fin l \<and> is_fin w \<and> js_lt (Fin 0) w \<longrightarrow>
            js_le (Fin 0) (clampedRatio cx l w) \<and> js_le (clampedRatio cx l w) (Fin 1))"
proof -
  have d: "js_sub (maxPosition s) (zoom s) \<noteq> NaN" using assms by (rule sub_not_NaN)
  have "position (handleInteraction cx l w s) =
      js_min (js_max (Fin 0) (js_max (Fin 0)
          (js_min (js_sub (js_floor (js_mul (clampedRatio cx l w) (maxPosition s)))
                     (js_div (zoom s) (Fin 2)))
             (js_sub (maxPosition s) (zoom s)))))
        (js_max (Fin 0) (js_sub (maxPosition s) (zoom s)))"
    by (simp add: handleInteraction_def setPosition_def Let_def clampedRatio_def)
  then have p: "position (handleInteraction cx l w s) =
      spec_clamp
        (js_sub (js_floor (js_mul (clampedRatio cx l w) (maxPosition s))) (js_div (zoom s) (Fin 2)))
        (Fin 0) (js_max (Fin 0) (js_sub (maxPosition s) (zoom s)))"
    by (simp only: clamp_collapse[OF d])
  have "js_le (Fin 0) (clampedRatio cx l w) \<and> js_le (clampedRatio cx l w) (Fin 1)"
    if h: "is_fin cx \<and> is_fin l \<and> is_fin w \<and> js_lt (Fin 0) w"
  proof -
    from h obtain ww where w: "w = Fin ww" "0 < ww" by (cases w) (auto simp: is_fin_def)
    from h clampedRatio_unit[of cx l ww] w obtain r
      where "clampedRatio cx l w = Fin r" "0 \<le> r" "r \<le> 1" by auto
    then show ?thesis by (auto simp: js_le_def)
  qed
  with p show ?thesis by blast
qed

text \<open>
  Without the floor the claim fails: a click in the middle of the canvas with
  \<open>maxPosition = 1001\<close> and \<open>zoom = 100\<close> gives position 450, not \<open>500.5 - 50 = 450.5\<close>.
\<close>

theorem minimap_click_counterexample:
  "position (handleInteraction (Fin 50) (Fin 0) (Fin 100)
      (initialTimeline\<lparr>maxPosition := Fin 1001\<rparr>)) = Fin 450 \<and>
   spec_minimapPosition (js_div (Fin 50) (Fin 100)) (Fin 1001) (Fin 100) = Fin (901 / 2) \<and>
   position (handleInteraction (Fin 50) (Fin 0) (Fin 100)
      (initialTimeline\<lparr>maxPosition := Fin 1001\<rparr>))
     \<noteq> spec_minimapPosition (js_div (Fin 50) (Fin 100)) (Fin 1001) (Fin 100)"
proof -
  have h: "round_double (1 / 2) = Fin (1 / 2)" "round_double (1001 / 2) = Fin (1001 / 2)"
    "round_double (901 / 2) = Fin (901 / 2)"
    using round_double_half[of 1] round_double_half[of 1001] round_double_half[of 901]
    by simp_all
  have a: "position (handleInteraction (Fin 50) (Fin 0) (Fin 100)
      (initialTimeline\<lparr>maxPosition := Fin 1001\<rparr>)) = Fin 450"
    by (simp add: handleInteraction_def setPosition_def Let_def initialTimeline_def h
        js_sub_def js_max_def js_min_def)
  have b: "spec_minimapPosition (js_div (Fin 50) (Fin 100)) (Fin 1001) (Fin 100) = Fin (901 / 2)"
    by (simp add: spec_minimapPosition_def spec_clamp_def h js_sub_def)
  show ?thesis unfolding a b by simp
qed

text \<open>
  The example of the claim, a click at 95 of 100 with \<open>maxPosition = 1000\<close> and
  \<open>zoom = 100\<close>: the quotient \<^verbatim>\<open>95 / 100\<close> is the double next to 0.95, its product with 1000
  rounds to 950, and the position is 900. A click at 29 of 100 with \<open>maxPosition = 100\<close> and
  \<open>zoom = 10\<close>: \<^verbatim>\<open>29 / 100 * 100\<close> is the double below 29, its floor is 28, and the position is
  23.
\<close>

theorem minimap_click_position_witness:
  "is_fin (zoom (initialTimeline\<lparr>maxPosition := Fin 1000\<rparr>)) \<and>
   maxPosition (initialTimeline\<lparr>maxPosition := Fin 1000\<rparr>) \<noteq> NaN \<and>
   is_fin (Fin 95) \<and> is_fin (Fin 0) \<and> is_fin (Fin 100) \<and> js_lt (Fin 0) (Fin 100) \<and>
   clampedRatio (Fin 95) (Fin 0) (Fin 100) = Fin (4278419646001971 / 4503599627370496) \<and>
   js_le (Fin 0) (clampedRatio (Fin 95) (Fin 0) (Fin 100)) \<and>
   js_le (clampedRatio (Fin 95) (Fin 0) (Fin 100)) (Fin 1) \<and>
   position (handleInteraction (Fin 95) (Fin 0) (Fin 100)
      (initialTimeline\<lparr>maxPosition := Fin 1000\<rparr>)) = Fin 900 \<and>
   clampedRatio (Fin 29) (Fin 0) (Fin 100) = Fin (5224175567749775 / 18014398509481984) \<and>
   js_mul (clampedRatio (Fin 29) (Fin 0) (Fin 100)) (Fin 100)
     = Fin (8162774324609023 / 281474976710656) \<and>
   position (handleInteraction (Fin 29) (Fin 0) (Fin 100)
      \<lparr>zoom = Fin 10, position = Fin 0, maxPosition = Fin 100, highlightedRange = None\<rparr>) = Fin 23 \<and>
   position (handleInteraction (Fin 50) (Fin 0) (Fin 100) initialTimeline) = PosInf"
proof -
  let ?s = "initialTimeline\<lparr>maxPosition := Fin 1000\<rparr>"
  let ?t = "\<lparr>zoom = Fin 10, position = Fin 0, maxPosition = Fin 100, highlightedRange = None\<rparr>"
  have q95: "js_div (Fin 95) (Fin 100) = Fin (4278419646001971 / 4503599627370496)"
    apply (simp only: js_div.simps)
    apply (subst round_double_normal[where k = "- 1"])
    apply (simp_all add: power_int_minus round_ties_even_def Let_def)
    done
  have m95: "js_mul (Fin (4278419646001971 / 4503599627370496)) (Fin 1000) = Fin 950"
    apply (simp only: js_mul.simps)
    apply (subst round_double_normal[where k = 9])
    apply (simp_all add: power_int_minus round_ties_even_def Let_def)
    done
  have q29: "js_div (Fin 29) (Fin 100) = Fin (5224175567749775 / 18014398509481984)"
    apply (simp only: js_div.simps)
    apply (subst round_double_normal[where k = "- 2"])
    apply (simp_all add: power_int_minus round_ties_even_def Let_def)
    done
  have m29: "js_mul (Fin (5224175567749775 / 18014398509481984)) (Fin 100) =
      Fin (8162774324609023 / 281474976710656)"
    apply (simp only: js_mul.simps)
    apply (subst round_double_normal[where k = 4])
    apply (simp_all add: power_int_minus round_ties_even_def Let_def)
    done
  have q50: "js_div (Fin 50) (Fin 100) = Fin (1 / 2)"
    using round_double_half[of 1] by simp
  have x: "js_sub (Fin 95) (Fin 0) = Fin 95" "js_sub (Fin 29) (Fin 0) = Fin 29"
    "js_sub (Fin 50) (Fin 0) = Fin 50"
    by (simp_all add: js_sub_def)
  have c95: "clampedRatio (Fin 95) (Fin 0) (Fin 100) = Fin (4278419646001971 / 4503599627370496)"
    unfolding clampedRatio_def x q95 by (simp add: js_max_def js_min_def)
  have c29: "clampedRatio (Fin 29) (Fin 0) (Fin 100) = Fin (5224175567749775 / 18014398509481984)"
    unfolding clampedRatio_def x q29 by (simp add: js_max_def js_min_def)
  have c50: "clampedRatio (Fin 50) (Fin 0) (Fin 100) = Fin (1 / 2)"
    unfolding clampedRatio_def x q50 by (simp add: js_max_def js_min_def)
  have hyp: "is_fin (zoom ?s)" "maxPosition ?s \<noteq> NaN" "is_fin (zoom ?t)" "maxPosition ?t \<noteq> NaN"
    "is_fin (zoom initialTimeline)" "maxPosition initialTimeline \<noteq> NaN"
    by (simp_all add: initialTimeline_def is_fin_def)
  have fin: "is_fin (Fin 95) \<and> is_fin (Fin 0) \<and> is_fin (Fin 100) \<and> js_lt (Fin 0) (Fin 100)"
    by (simp add: is_fin_def)
  have st: "maxPosition ?s = Fin 1000" "zoom ?s = Fin 100" "maxPosition ?t = Fin 100"
    "zoom ?t = Fin 10"
    by (simp_all add: initialTimeline_def)
  note t95 = minimap_click_position[OF hyp(1,2), of "Fin 95" "Fin 0" "Fin 100"]
  have p95: "position (handleInteraction (Fin 95) (Fin 0) (Fin 100) ?s) = Fin 900"
    using t95[THEN conjunct1]
    unfolding c95 st m95 by (simp add: spec_clamp_def js_sub_def js_max_def)
  have r95: "js_le (Fin 0) (clampedRatio (Fin 95) (Fin 0) (Fin 100)) \<and>
      js_le (clampedRatio (Fin 95) (Fin 0) (Fin 100)) (Fin 1)"
    using t95[THEN conjunct2] fin by blast
  have p29: "position (handleInteraction (Fin 29) (Fin 0) (Fin 100) ?t) = Fin 23"
    using minimap_click_position[OF hyp(3,4), of "Fin 29" "Fin 0" "Fin 100", THEN conjunct1]
    unfolding c29 st m29 by (simp add: spec_clamp_def js_sub_def js_max_def)
  have p50: "position (handleInteraction (Fin 50) (Fin 0) (Fin 100) initialTimeline) = PosInf"
    using minimap_click_position[OF hyp(5,6), of "Fin 50" "Fin 0" "Fin 100", THEN conjunct1]
    unfolding c50
    by (simp add: initialTimeline_def spec_clamp_def js_sub_def js_max_def js_inf_def js_sign_def)
  have m29': "js_mul (clampedRatio (Fin 29) (Fin 0) (Fin 100)) (Fin 100)
      = Fin (8162774324609023 / 281474976710656)"
    unfolding c29 by (rule m29)
  show ?thesis
    by (intro conjI hyp(1,2) fin[THEN conjunct1] fin[THEN conjunct2, THEN conjunct1]
        fin[THEN conjunct2, THEN conjunct2, THEN conjunct1]
        fin[THEN conjunct2, THEN conjunct2, THEN conjunct2]
        c95 r95[THEN conjunct1] r95[THEN conjunct2] p95 c29 m29' p29 p50)
qed

section \<open>Properties of the depth map\<close>

lemma depthItem_apply:
  "depthItem m e p = (if fst e = p then Some (max (currentMaxAt m p) (length (cons (snd e)))) else m p)"
  by (simp add: depthItem_def currentMaxAt_def Let_def)

lemma foldl_depthItem_dom:
  "(foldl depthItem m al p = None) = (m p = None \<and> consLengthsAt p al = [])"
  by (induction al arbitrary: m) (simp_all add: consLengthsAt_def depthItem_apply)

lemma Max_insert_max:
  "finite A \<Longrightarrow> Max (insert (max a b) A) = Max (insert (a::nat) (insert b A))"
  by (cases "A = {}") (simp_all add: max.assoc)

lemma foldl_depthItem_cur:
  "currentMaxAt (foldl depthItem m al) p = Max (insert (currentMaxAt m p) (set (consLengthsAt p al)))"
proof (induction al arbitrary: m)
  case Nil
  then show ?case by (simp add: consLengthsAt_def)
next
  case (Cons e al)
  show ?case
  proof (cases "fst e = p")
    case True
    have "currentMaxAt (depthItem m e) p = max (currentMaxAt m p) (length (cons (snd e)))"
      using True by (simp add: currentMaxAt_def depthItem_apply)
    then show ?thesis using True Cons.IH[of "depthItem m e"]
      by (simp add: consLengthsAt_def Max_insert_max del: Max_insert)
  next
    case False
    have "currentMaxAt (depthItem m e) p = currentMaxAt m p"
      using False by (simp add: currentMaxAt_def depthItem_apply)
    then show ?thesis using False Cons.IH[of "depthItem m e"]
      by (simp add: consLengthsAt_def)
  qed
qed

lemma foldl_depthTrace: "foldl depthTrace m tracks = foldl depthItem m (entriesOf tracks)"
  by (induction tracks arbitrary: m)
     (simp_all add: entriesOf_def depthTrace_def split: option.splits)


text \<open>
  What the depth map holds. Without a reference track it is empty. With one, it holds, for
  each reference position that is a key of some track's alignment, the greatest length of
  the consensus array \<open>cons\<close> at that position over the reference track and every loaded
  track; the lengths of \<open>alt1\<close> and \<open>alt2\<close> are not read.
\<close>

lemma alignmentDepthMap_cons_only:
  "alignmentDepthMap None trs = Map.empty \<and>
   alignmentDepthMap (Some r) trs p =
     (if consLengthsAt p (entriesOf (r # trs)) = [] then None
      else Some (Max (set (consLengthsAt p (entriesOf (r # trs))))))"
proof -
  let ?E = "entriesOf (r # trs)"
  let ?m = "foldl depthItem Map.empty ?E"
  have m: "alignmentDepthMap (Some r) trs = ?m"
    by (simp only: alignmentDepthMap_def option.case foldl_depthTrace)
  have 1: "?m p =
     (if consLengthsAt p ?E = [] then None else Some (Max (set (consLengthsAt p ?E))))"
  proof (cases "consLengthsAt p ?E = []")
    case True
    then show ?thesis using foldl_depthItem_dom[of Map.empty ?E p] by simp
  next
    case False
    then obtain d where d: "?m p = Some d"
      using foldl_depthItem_dom[of Map.empty ?E p] by auto
    have "d = currentMaxAt ?m p" using d by (simp add: currentMaxAt_def)
    also have "\<dots> = Max (insert 0 (set (consLengthsAt p ?E)))"
      by (simp only: foldl_depthItem_cur) (simp add: currentMaxAt_def)
    also have "\<dots> = Max (set (consLengthsAt p ?E))"
      using False by simp
    finally show ?thesis using d False by simp
  qed
  show ?thesis using 1 unfolding m by (simp add: alignmentDepthMap_def)
qed

lemma example_depths:
  "alignmentDepthMap (Some exampleReference) [exampleTrackA, exampleTrackB] 50 = Some 1"
  "alignmentDepthMap (Some exampleEmptyReference) [] 50 = Some 0"
  by (simp_all add: alignmentDepthMap_def depthTrace_def depthItem_def exampleReference_def
      exampleTrackA_def exampleTrackB_def exampleItemA_def exampleItemB_def
      exampleEmptyReference_def)

lemma exampleViewport_rows:
  "consensusAlign t = Some al \<Longrightarrow>
   visibleAlleles (Some t) expanded sel dm exampleViewport =
     Some (map (\<lambda>row. slotCells row al dm None sel 49) (if expanded then [0, 1, 2] else [0]))"
  by (simp add: visibleAlleles_def viewRange_def exampleViewport_def Let_def js_sub_def
      loopCount_def intOf_def rowCells_def)

text \<open>
  Claim C2, at the example of the claim. Track A has allele depth 2 at position 50 through
  its first alternative allele \<open>[A, T]\<close>, and the depth map holds 1 there, not 2: with that
  map the expanded rows of track A at position 50 are \<open>[A]\<close>, \<open>[A]\<close> and \<open>[-]\<close>, and the
  inserted \<open>T\<close> is in no cell. For an entry with an empty consensus array the map holds 0.
\<close>

theorem depthMap_example_evaluation:
  "spec_alleleDepth exampleItemA = 2 \<and> spec_alleleDepth exampleItemB = 1 \<and>
   alignmentDepthMap (Some exampleReference) [exampleTrackA, exampleTrackB] 50 = Some 1 \<and>
   map_option (map (map char))
     (visibleAlleles (Some exampleTrackA) True False
        (alignmentDepthMap (Some exampleReference) [exampleTrackA, exampleTrackB])
        exampleViewport) = Some [[''A''], [''A''], [''-'']] \<and>
   alignmentDepthMap (Some exampleEmptyReference) [] 50 = Some 0"
proof -
  have c: "consensusAlign exampleTrackA = Some [(50, exampleItemA)]"
    by (simp add: exampleTrackA_def)
  have "map_option (map (map char))
     (visibleAlleles (Some exampleTrackA) True False
        (alignmentDepthMap (Some exampleReference) [exampleTrackA, exampleTrackB])
        exampleViewport) = Some [[''A''], [''A''], [''-'']]"
    unfolding exampleViewport_rows[OF c]
    by (simp add: slotCells_def depthAt_def example_depths mkCell_def Let_def consCharAt_def
        altCharAt_def exampleItemA_def)
  then show ?thesis
    by (simp add: example_depths spec_alleleDepth_def exampleItemA_def exampleItemB_def)
qed

section \<open>Properties of the row renderer\<close>

lemma mkCell_fields:
  "index (mkCell row item hl sel g k) = g + 1 \<and> subIndex (mkCell row item hl sel g k) = k \<and>
   globalIndex (mkCell row item hl sel g k) = g"
  by (simp add: mkCell_def Let_def)

lemma mkCell_char:
  "row < 3 \<Longrightarrow> char (mkCell row item hl sel g k) = spec_subCellChar (rowAllele row) item k"
  by (cases item)
     (auto simp: mkCell_def Let_def spec_subCellChar_def rowAllele_def consCharAt_def
        altCharAt_def)

lemma cellsAt_slotCells:
  "cellsAt rp (slotCells row al dm hl sel g) =
     (if g + 1 = rp then slotCells row al dm hl sel g else [])"
  by (auto simp: cellsAt_def slotCells_def Let_def mkCell_fields filter_empty_conv)

lemma cellsAt_append: "cellsAt rp (xs @ ys) = cellsAt rp xs @ cellsAt rp ys"
  by (simp add: cellsAt_def)

lemma cellsAt_rowCells:
  "cellsAt rp (rowCells row al dm hl sel vs n) =
     (if vs < rp \<and> rp \<le> vs + int n then slotCells row al dm hl sel (rp - 1) else [])"
proof (induction n)
  case 0
  then show ?case by (auto simp: rowCells_def cellsAt_def)
next
  case (Suc n)
  have "rowCells row al dm hl sel vs (Suc n) =
        rowCells row al dm hl sel vs n @ slotCells row al dm hl sel (vs + int n)"
    by (simp add: rowCells_def)
  then show ?case using Suc.IH
    by (auto simp: cellsAt_append cellsAt_slotCells)
qed

lemma int_bound_floor: "\<bar>p\<bar> \<le> 2 ^ 52 \<Longrightarrow> \<bar>\<lfloor>p :: real\<rfloor>\<bar> \<le> 2 ^ 52"
proof -
  assume a: "\<bar>p\<bar> \<le> 2 ^ 52"
  have "of_int (- (2 ^ 52)) \<le> p" "p \<le> of_int (2 ^ 52)" using a by (simp_all add: abs_le_iff)
  then have "- (2 ^ 52) \<le> \<lfloor>p\<rfloor>" "\<lfloor>p\<rfloor> \<le> 2 ^ 52"
    by (simp_all only: le_floor_iff floor_le_iff)
  then show ?thesis by linarith
qed

lemma int_bound_ceiling: "\<bar>e\<bar> \<le> 2 ^ 52 \<Longrightarrow> \<bar>\<lceil>e :: real\<rceil>\<bar> \<le> 2 ^ 52"
proof -
  assume a: "\<bar>e\<bar> \<le> 2 ^ 52"
  have "of_int (- (2 ^ 52)) \<le> e" "e \<le> of_int (2 ^ 52)" using a by (simp_all add: abs_le_iff)
  then have "- (2 ^ 52) \<le> \<lceil>e\<rceil>" "\<lceil>e\<rceil> \<le> 2 ^ 52"
    by (simp_all only: le_ceiling_iff ceiling_le_iff)
  then show ?thesis by linarith
qed

lemma visibleAlleles_rows:
  assumes "consensusAlign t = Some al" "viewRange s = (Fin p, Fin e)"
    "\<bar>p\<bar> \<le> 2 ^ 52" "\<bar>e\<bar> \<le> 2 ^ 52"
  shows "visibleAlleles (Some t) expanded sel dm s =
     Some (map (\<lambda>row. rowCells row al dm (highlightedRange s) sel \<lfloor>p\<rfloor>
                        (nat (\<lceil>e\<rceil> - \<lfloor>p\<rfloor>)))
             (if expanded then [0, 1, 2] else [0]))"
proof -
  have "(2::int) ^ 53 = 2 ^ 52 + 2 ^ 52" by simp
  then have b: "\<bar>\<lceil>e\<rceil> - \<lfloor>p\<rfloor>\<bar> \<le> 2 ^ 53"
    using int_bound_floor[OF assms(3)] int_bound_ceiling[OF assms(4)] by linarith
  have t: "js_sub (Fin (of_int \<lceil>e\<rceil>)) (Fin (of_int \<lfloor>p\<rfloor>)) = Fin (of_int (\<lceil>e\<rceil> - \<lfloor>p\<rfloor>))"
    by (rule js_sub_int[OF b])
  have "\<lceil>e\<rceil> - \<lfloor>p\<rfloor> \<le> 2 ^ 53" using b by linarith
  then have "real_of_int (\<lceil>e\<rceil> - \<lfloor>p\<rfloor>) \<le> real_of_int (2 ^ 53)" by (simp only: of_int_le_iff)
  then have l: "loopCount (Fin (of_int (\<lceil>e\<rceil> - \<lfloor>p\<rfloor>))) = Some (nat (\<lceil>e\<rceil> - \<lfloor>p\<rfloor>))"
    by (simp add: loopCount_def)
  show ?thesis
    unfolding visibleAlleles_def Let_def assms(2)
    by (simp add: assms(1) t l intOf_def del: of_int_diff)
qed

lemma slotCells_props:
  "length (slotCells row al dm hl sel g) = depthAt dm (g + 1) \<and>
   (\<forall>k < depthAt dm (g + 1).
      subIndex (slotCells row al dm hl sel g ! k) = k \<and>
      index (slotCells row al dm hl sel g ! k) = g + 1 \<and>
      globalIndex (slotCells row al dm hl sel g ! k) = g \<and>
      (row < 3 \<longrightarrow> char (slotCells row al dm hl sel g ! k) =
         spec_subCellChar (rowAllele row) (map_of al (g + 1)) k))"
  by (simp add: slotCells_def Let_def mkCell_fields mkCell_char)

text \<open>
  Claim C3, as amended. For a track with an alignment and a viewport window from \<open>p\<close> to \<open>e\<close>
  (both at most \<open>2 ^ 52\<close> in magnitude, so that cell indices are exact), \<open>visibleAlleles\<close>
  returns one row, or three when the row is expanded. The visible reference positions are
  those \<open>rp\<close> with \<open>\<lfloor>p\<rfloor> < rp \<le> \<lceil>e\<rceil>\<close>. In every displayed row the cells of a visible \<open>rp\<close> are
  exactly \<open>depthAt dm rp\<close> many, which is \<open>DepthMap[rp]\<close> when that is at least 1 and 1 when it
  is missing or 0; the cell at slot \<open>k\<close> has sub-index \<open>k\<close>, shows the character of the row's
  channel at \<open>k\<close> when the entry exists and \<open>k\<close> is within its array and the gap filler
  otherwise, and carries the viewport index \<open>rp - 1\<close>, the same for all slots of \<open>rp\<close>. A
  position outside the window has no cells. With no entry every sub-cell is a gap filler.
\<close>

theorem visibleAlleles_subcells:
  assumes "consensusAlign t = Some al" and "viewRange s = (Fin p, Fin e)"
    and "\<bar>p\<bar> \<le> 2 ^ 52" and "\<bar>e\<bar> \<le> 2 ^ 52"
  shows "(\<exists>rows. visibleAlleles (Some t) expanded sel dm s = Some rows \<and>
           length rows = (if expanded then 3 else 1) \<and>
           (\<forall>r < length rows. \<forall>rp.
              (\<lfloor>p\<rfloor> < rp \<and> rp \<le> \<lceil>e\<rceil> \<longrightarrow>
                 length (cellsAt rp (rows ! r)) = depthAt dm rp \<and>
                 (\<forall>k < depthAt dm rp.
                    subIndex (cellsAt rp (rows ! r) ! k) = k \<and>
                    globalIndex (cellsAt rp (rows ! r) ! k) = rp - 1 \<and>
                    char (cellsAt rp (rows ! r) ! k) =
                      spec_subCellChar (rowAllele r) (map_of al rp) k)) \<and>
              (\<not> (\<lfloor>p\<rfloor> < rp \<and> rp \<le> \<lceil>e\<rceil>) \<longrightarrow> cellsAt rp (rows ! r) = []))) \<and>
         (\<forall>rp. depthAt dm rp = (case dm rp of None \<Rightarrow> 1 | Some d \<Rightarrow> max 1 d)) \<and>
         (\<forall>a k. spec_subCellChar a None k = ''-'')"
proof -
  let ?n = "nat (\<lceil>e\<rceil> - \<lfloor>p\<rfloor>)"
  let ?row = "\<lambda>row. rowCells row al dm (highlightedRange s) sel \<lfloor>p\<rfloor> ?n"
  let ?rows = "map ?row (if expanded then [0, 1, 2] else [0])"
  have le: "\<lfloor>p\<rfloor> < rp \<Longrightarrow> (rp \<le> \<lfloor>p\<rfloor> + int ?n) = (rp \<le> \<lceil>e\<rceil>)" for rp
    by linarith
  have vis: "(\<lfloor>p\<rfloor> < rp \<and> rp \<le> \<lfloor>p\<rfloor> + int ?n) = (\<lfloor>p\<rfloor> < rp \<and> rp \<le> \<lceil>e\<rceil>)" for rp
    using le[of rp] by blast
  have rcases: "r = 0 \<or> (expanded \<and> (r = 1 \<or> r = 2))" if "r < length ?rows" for r
    using that by (cases expanded) (simp_all, linarith)
  have rows_nth: "?rows ! r = ?row r" and r3: "r < 3" if "r < length ?rows" for r
    using rcases[OF that] by auto
  have cells: "cellsAt rp (?row r) =
      (if \<lfloor>p\<rfloor> < rp \<and> rp \<le> \<lceil>e\<rceil>
       then slotCells r al dm (highlightedRange s) sel (rp - 1) else [])" for r rp
    by (simp only: cellsAt_rowCells vis)
  have "\<forall>r < length ?rows. \<forall>rp.
              (\<lfloor>p\<rfloor> < rp \<and> rp \<le> \<lceil>e\<rceil> \<longrightarrow>
                 length (cellsAt rp (?rows ! r)) = depthAt dm rp \<and>
                 (\<forall>k < depthAt dm rp.
                    subIndex (cellsAt rp (?rows ! r) ! k) = k \<and>
                    globalIndex (cellsAt rp (?rows ! r) ! k) = rp - 1 \<and>
                    char (cellsAt rp (?rows ! r) ! k) =
                      spec_subCellChar (rowAllele r) (map_of al rp) k)) \<and>
              (\<not> (\<lfloor>p\<rfloor> < rp \<and> rp \<le> \<lceil>e\<rceil>) \<longrightarrow> cellsAt rp (?rows ! r) = [])"
  proof (intro allI impI)
    fix r rp assume r: "r < length ?rows"
    show "(\<lfloor>p\<rfloor> < rp \<and> rp \<le> \<lceil>e\<rceil> \<longrightarrow>
                 length (cellsAt rp (?rows ! r)) = depthAt dm rp \<and>
                 (\<forall>k < depthAt dm rp.
                    subIndex (cellsAt rp (?rows ! r) ! k) = k \<and>
                    globalIndex (cellsAt rp (?rows ! r) ! k) = rp - 1 \<and>
                    char (cellsAt rp (?rows ! r) ! k) =
                      spec_subCellChar (rowAllele r) (map_of al rp) k)) \<and>
              (\<not> (\<lfloor>p\<rfloor> < rp \<and> rp \<le> \<lceil>e\<rceil>) \<longrightarrow> cellsAt rp (?rows ! r) = [])"
      unfolding rows_nth[OF r] cells
      using slotCells_props[of r al dm "highlightedRange s" sel "rp - 1"] r3[OF r]
      by simp
  qed
  moreover have "length ?rows = (if expanded then 3 else 1)" by simp
  ultimately have main: "\<exists>rows. visibleAlleles (Some t) expanded sel dm s = Some rows \<and>
           length rows = (if expanded then 3 else 1) \<and>
           (\<forall>r < length rows. \<forall>rp.
              (\<lfloor>p\<rfloor> < rp \<and> rp \<le> \<lceil>e\<rceil> \<longrightarrow>
                 length (cellsAt rp (rows ! r)) = depthAt dm rp \<and>
                 (\<forall>k < depthAt dm rp.
                    subIndex (cellsAt rp (rows ! r) ! k) = k \<and>
                    globalIndex (cellsAt rp (rows ! r) ! k) = rp - 1 \<and>
                    char (cellsAt rp (rows ! r) ! k) =
                      spec_subCellChar (rowAllele r) (map_of al rp) k)) \<and>
              (\<not> (\<lfloor>p\<rfloor> < rp \<and> rp \<le> \<lceil>e\<rceil>) \<longrightarrow> cellsAt rp (rows ! r) = []))"
    unfolding visibleAlleles_rows[OF assms] by blast
  have d: "\<forall>rp. depthAt dm rp = (case dm rp of None \<Rightarrow> 1 | Some d \<Rightarrow> max 1 d)"
    by (auto simp: depthAt_def split: option.splits)
  have g: "\<forall>a k. spec_subCellChar a None k = ''-''"
    by (simp add: spec_subCellChar_def)
  from main d g show ?thesis by (intro conjI)
qed

text \<open>
  The count as the claim states it, \<open>DepthMap[refPos]\<close> with default 1 for a missing
  position, fails where the map holds 0: the depth map built for a reference whose entry
  at position 50 has an empty consensus array holds 0 there, and the row of track B has
  one cell at position 50.
\<close>

theorem visibleAlleles_depth_counterexample:
  "alignmentDepthMap (Some exampleEmptyReference) [] 50 = Some 0 \<and>
   map_option (map (\<lambda>row. length (cellsAt 50 row)))
     (visibleAlleles (Some exampleTrackB) False False
        (alignmentDepthMap (Some exampleEmptyReference) []) exampleViewport) = Some [1] \<and>
   map_option (map (\<lambda>row. map char (cellsAt 50 row)))
     (visibleAlleles (Some exampleTrackB) False False
        (alignmentDepthMap (Some exampleEmptyReference) []) exampleViewport) = Some [[''A'']]"
proof -
  have c: "consensusAlign exampleTrackB = Some [(50, exampleItemB)]"
    by (simp add: exampleTrackB_def)
  show ?thesis
    unfolding exampleViewport_rows[OF c]
    by (simp add: slotCells_def depthAt_def example_depths mkCell_def Let_def consCharAt_def
        cellsAt_def exampleItemB_def)
qed

theorem visibleAlleles_subcells_witness:
  "consensusAlign exampleTrackB = Some [(50, exampleItemB)] \<and>
   viewRange exampleViewport = (Fin 49, Fin 50) \<and> \<bar>49 :: real\<bar> \<le> 2 ^ 52 \<and> \<bar>50 :: real\<bar> \<le> 2 ^ 52 \<and>
   map char (cellsAt 50 (the (visibleAlleles (Some exampleTrackB) False False
      (Map.empty(50 \<mapsto> 2)) exampleViewport) ! 0)) = [''A'', ''-''] \<and>
   map globalIndex (cellsAt 50 (the (visibleAlleles (Some exampleTrackB) False False
      (Map.empty(50 \<mapsto> 2)) exampleViewport) ! 0)) = [49, 49]"
proof -
  let ?s = "exampleViewport"
  let ?dm = "Map.empty(50 \<mapsto> 2::nat)"
  have c: "consensusAlign exampleTrackB = Some [(50, exampleItemB)]"
    by (simp add: exampleTrackB_def)
  have v: "viewRange ?s = (Fin 49, Fin 50)"
    by (simp add: viewRange_def exampleViewport_def)
  have b: "\<bar>49 :: real\<bar> \<le> 2 ^ 52" "\<bar>50 :: real\<bar> \<le> 2 ^ 52" by simp_all
  from visibleAlleles_subcells[OF c v b, of False False ?dm]
  obtain rows where rows: "visibleAlleles (Some exampleTrackB) False False ?dm ?s = Some rows"
    and len: "length rows = 1"
    and cells: "\<forall>r < length rows. \<forall>rp.
              (\<lfloor>49::real\<rfloor> < rp \<and> rp \<le> \<lceil>50 :: real\<rceil> \<longrightarrow>
                 length (cellsAt rp (rows ! r)) = depthAt ?dm rp \<and>
                 (\<forall>k < depthAt ?dm rp.
                    subIndex (cellsAt rp (rows ! r) ! k) = k \<and>
                    globalIndex (cellsAt rp (rows ! r) ! k) = rp - 1 \<and>
                    char (cellsAt rp (rows ! r) ! k) =
                      spec_subCellChar (rowAllele r) (map_of [(50, exampleItemB)] rp) k)) \<and>
              (\<not> (\<lfloor>49::real\<rfloor> < rp \<and> rp \<le> \<lceil>50 :: real\<rceil>) \<longrightarrow> cellsAt rp (rows ! r) = [])"
    by auto
  have d: "depthAt ?dm 50 = 2" by (simp add: depthAt_def)
  from cells len have l: "length (cellsAt 50 (rows ! 0)) = 2"
    and k: "\<forall>k < 2. globalIndex (cellsAt 50 (rows ! 0) ! k) = 49 \<and>
                 char (cellsAt 50 (rows ! 0) ! k) =
                   spec_subCellChar AlleleCons (Some exampleItemB) k"
    by (simp_all add: d rowAllele_def)
  have k0: "char (cellsAt 50 (rows ! 0) ! 0) = ''A''" "globalIndex (cellsAt 50 (rows ! 0) ! 0) = 49"
    and k1: "char (cellsAt 50 (rows ! 0) ! 1) = ''-''" "globalIndex (cellsAt 50 (rows ! 0) ! 1) = 49"
    using k by (simp_all add: spec_subCellChar_def exampleItemB_def)
  obtain x y where xy: "cellsAt 50 (rows ! 0) = [x, y]"
    using l by (metis (no_types) length_0_conv length_Suc_conv numeral_2_eq_2)
  show ?thesis using c v k0 k1 by (simp add: rows xy)
qed

section \<open>Properties of selection and copy\<close>

lemma copyLoop_closed:
  "copyLoop rng allele keys acc =
     acc @ filter (\<lambda>c. c \<noteq> CHR ''-'')
       (concat (map (\<lambda>e. concat (alleleChars allele (snd e)))
          (filter (\<lambda>e. case rng of None \<Rightarrow> True
                        | Some (lo, hi) \<Rightarrow> lo \<le> fst e - 1 \<and> fst e - 1 \<le> hi) keys)))"
proof (induction keys arbitrary: acc)
  case Nil
  show ?case by simp
next
  case (Cons e keys)
  obtain k item where e: "e = (k, item)" by (cases e)
  show ?case
  proof (cases rng)
    case None
    then show ?thesis using Cons.IH by (simp add: e)
  next
    case (Some r)
    obtain lo hi where r: "r = (lo, hi)" by (cases r)
    show ?thesis using Cons.IH by (simp add: e Some r Let_def not_less)
  qed
qed

lemma copySequence_text:
  assumes "(case contextMenuData g of Some d \<Rightarrow> Some (menuReadId d)
           | None \<Rightarrow> selectingRowId g) = Some rid" and "rid \<noteq> []"
    and "findEntry rid g = Some e" and "consensusAlign e = Some al"
    and "highlightedRange (timeline g) = Some (lo, hi)"
  shows "fst (copySequence allele g) =
      (if spec_copyText lo hi allele al = [] then SequenceIsEmpty
       else ClipboardText (spec_copyText lo hi allele al))"
  using assms
  by (simp add: copySequence_def Let_def copyLoop_closed spec_copyText_def)

lemma copySequence_no_gap:
  assumes "fst (copySequence allele g) = ClipboardText txt"
  shows "CHR ''-'' \<notin> set txt"
proof -
  from assms obtain rng keys where "txt = copyLoop rng allele keys []"
    by (simp add: copySequence_def Let_def split: option.splits if_splits) blast+
  then show ?thesis by (simp add: copyLoop_closed)
qed

lemma handleMouseEnter_selecting:
  "isSelecting g \<Longrightarrow> selectionStart g = Some a \<Longrightarrow>
   handleMouseEnter b ai rid g = g\<lparr>timeline := setHighlight (min a b) (max a b) (timeline g)\<rparr>"
  by (simp add: handleMouseEnter_def)

lemma drag_shape:
  "\<exists>i j. drag a xs ai rid g =
      (handleMouseDown a ai rid g)\<lparr>timeline := setHighlight i j (timeline g)\<rparr>"
proof (induction xs rule: rev_induct)
  case Nil
  have "drag a [] ai rid g =
      (handleMouseDown a ai rid g)\<lparr>timeline := setHighlight a a (timeline g)\<rparr>"
    by (simp add: drag_def handleMouseDown_def Let_def)
  then show ?case by blast
next
  case (snoc x xs)
  then obtain i j where h: "drag a xs ai rid g =
      (handleMouseDown a ai rid g)\<lparr>timeline := setHighlight i j (timeline g)\<rparr>" by blast
  have s: "isSelecting (drag a xs ai rid g)" "selectionStart (drag a xs ai rid g) = Some a"
    unfolding h by (simp_all add: handleMouseDown_def Let_def)
  have step: "drag a (xs @ [x]) ai rid g = handleMouseEnter x ai rid (drag a xs ai rid g)"
    by (simp add: drag_def)
  have "drag a (xs @ [x]) ai rid g =
      (handleMouseDown a ai rid g)\<lparr>timeline := setHighlight (min a x) (max a x) (timeline g)\<rparr>"
    unfolding step handleMouseEnter_selecting[OF s] unfolding h
    by (simp add: setHighlight_def)
  then show ?case by blast
qed

lemma drag_snoc:
  "drag a (xs @ [b]) ai rid g =
     (handleMouseDown a ai rid g)\<lparr>timeline := setHighlight (min a b) (max a b) (timeline g)\<rparr>"
proof -
  from drag_shape[of a xs ai rid g] obtain i j where h: "drag a xs ai rid g =
      (handleMouseDown a ai rid g)\<lparr>timeline := setHighlight i j (timeline g)\<rparr>" by blast
  have s: "isSelecting (drag a xs ai rid g)" "selectionStart (drag a xs ai rid g) = Some a"
    unfolding h by (simp_all add: handleMouseDown_def Let_def)
  have step: "drag a (xs @ [b]) ai rid g = handleMouseEnter b ai rid (drag a xs ai rid g)"
    by (simp add: drag_def)
  show ?thesis
    unfolding step handleMouseEnter_selecting[OF s] unfolding h
    by (simp add: setHighlight_def)
qed

lemma copySequence_cong:
  assumes "contextMenuData g = contextMenuData g'" "selectingRowId g = selectingRowId g'"
    "referenceTrace g = referenceTrace g'" "traces g = traces g'"
    "highlightedRange (timeline g) = highlightedRange (timeline g')"
  shows "fst (copySequence allele g) = fst (copySequence allele g')"
  using assms
  by (simp add: copySequence_def Let_def findEntry_def split: option.splits)

lemma drag_direction:
  "fst (copySequence allele (drag a (xs @ [b]) ai rid g)) =
   fst (copySequence allele (drag b (ys @ [a]) ai rid g))"
  by (rule copySequence_cong)
     (simp_all add: drag_snoc handleMouseDown_def Let_def setHighlight_def min.commute max.commute)


text \<open>
  Claim C7. When the row of the selection (or of the open context menu) has an alignment and
  the highlighted range is \<open>[lo, hi]\<close>, \<open>copySequence\<close> hands to the clipboard the text of
  the specification: over the entries with \<open>lo \<le> refPos - 1 \<le> hi\<close>, in ascending order of
  reference position, the characters of the chosen channel over all slots without the gap
  filler; when that text is empty it shows a toast instead. No text it hands over contains
  the gap filler. A drag that starts at \<open>a\<close> and ends at \<open>b\<close> and a drag that starts at \<open>b\<close> and
  ends at \<open>a\<close> copy the same text, whatever cells the pointer crossed in between.
\<close>

theorem copySequence_selected_text:
  "((case contextMenuData g of Some d \<Rightarrow> Some (menuReadId d) | None \<Rightarrow> selectingRowId g)
       = Some rid \<and> rid \<noteq> [] \<and>
    findEntry rid g = Some e \<and> consensusAlign e = Some al \<and>
    highlightedRange (timeline g) = Some (lo, hi) \<longrightarrow>
      fst (copySequence allele g) =
        (if spec_copyText lo hi allele al = [] then SequenceIsEmpty
         else ClipboardText (spec_copyText lo hi allele al))) \<and>
   sorted (map fst (sort_key fst al)) \<and>
   (fst (copySequence allele g') = ClipboardText txt \<longrightarrow> CHR ''-'' \<notin> set txt) \<and>
   fst (copySequence allele (drag a (xs @ [b]) ai rid' g')) =
     fst (copySequence allele (drag b (ys @ [a]) ai rid' g'))"
proof (intro conjI impI)
  assume "(case contextMenuData g of Some d \<Rightarrow> Some (menuReadId d) | None \<Rightarrow> selectingRowId g)
       = Some rid \<and> rid \<noteq> [] \<and>
    findEntry rid g = Some e \<and> consensusAlign e = Some al \<and>
    highlightedRange (timeline g) = Some (lo, hi)"
  then have h: "(case contextMenuData g of Some d \<Rightarrow> Some (menuReadId d)
                  | None \<Rightarrow> selectingRowId g) = Some rid"
      "rid \<noteq> []" "findEntry rid g = Some e" "consensusAlign e = Some al"
      "highlightedRange (timeline g) = Some (lo, hi)"
    by simp_all
  show "fst (copySequence allele g) =
        (if spec_copyText lo hi allele al = [] then SequenceIsEmpty
         else ClipboardText (spec_copyText lo hi allele al))"
    by (rule copySequence_text[OF h])
next
  show "sorted (map fst (sort_key fst al))" by (rule sorted_sort_key)
next
  assume "fst (copySequence allele g') = ClipboardText txt"
  then show "CHR ''-'' \<notin> set txt" by (rule copySequence_no_gap)
next
  show "fst (copySequence allele (drag a (xs @ [b]) ai rid' g')) =
     fst (copySequence allele (drag b (ys @ [a]) ai rid' g'))"
    by (rule drag_direction)
qed

theorem copySequence_selected_text_witness:
  "(case contextMenuData (drag 2 [1, 0] 0 ''read1'' exampleGroup) of
      Some d \<Rightarrow> Some (menuReadId d)
    | None \<Rightarrow> selectingRowId (drag 2 [1, 0] 0 ''read1'' exampleGroup)) = Some ''read1'' \<and>
   findEntry ''read1'' (drag 2 [1, 0] 0 ''read1'' exampleGroup) = Some exampleRead \<and>
   highlightedRange (timeline (drag 2 [1, 0] 0 ''read1'' exampleGroup)) = Some (0, 2) \<and>
   fst (copySequence AlleleCons (drag 2 [1, 0] 0 ''read1'' exampleGroup)) = ClipboardText ''AG'' \<and>
   fst (copySequence AlleleCons (drag 0 [1, 2] 0 ''read1'' exampleGroup)) = ClipboardText ''AG''"
proof -
  let ?g = "drag 2 [1, 0] 0 ''read1'' exampleGroup"
  have g: "?g = exampleGroup\<lparr>isSelecting := True, selectionStart := Some 2,
      selectingRowId := Some ''read1'', selectingAlleleIndex := Some 0,
      timeline := setHighlight 0 2 initialTimeline\<rparr>"
    by (simp add: drag_def handleMouseDown_def handleMouseEnter_def exampleGroup_def Let_def
        setHighlight_def initialTimeline_def)
  have 1: "(case contextMenuData ?g of Some d \<Rightarrow> Some (menuReadId d)
            | None \<Rightarrow> selectingRowId ?g) = Some ''read1''"
    unfolding g by (simp add: exampleGroup_def)
  have 2: "findEntry ''read1'' ?g = Some exampleRead"
    unfolding g by (simp add: exampleGroup_def findEntry_def exampleRead_def)
  have 3: "highlightedRange (timeline ?g) = Some (0, 2)"
    unfolding g by (simp add: setHighlight_def)
  have 4: "consensusAlign exampleRead = Some
        [(3, \<lparr>refPos = 3, sangerPos1 = None, sangerPos2 = None, alt1 = [], alt2 = [],
              cons = [''G'']\<rparr>),
         (1, \<lparr>refPos = 1, sangerPos1 = None, sangerPos2 = None, alt1 = [], alt2 = [],
              cons = [''A'', ''-'']\<rparr>),
         (2, \<lparr>refPos = 2, sangerPos1 = None, sangerPos2 = None, alt1 = [], alt2 = [],
              cons = [''-'']\<rparr>)]"
    by (simp add: exampleRead_def)
  have 5: "spec_copyText 0 2 AlleleCons
        [(3, \<lparr>refPos = 3, sangerPos1 = None, sangerPos2 = None, alt1 = [], alt2 = [],
              cons = [''G'']\<rparr>),
         (1, \<lparr>refPos = 1, sangerPos1 = None, sangerPos2 = None, alt1 = [], alt2 = [],
              cons = [''A'', ''-'']\<rparr>),
         (2, \<lparr>refPos = 2, sangerPos1 = None, sangerPos2 = None, alt1 = [], alt2 = [],
              cons = [''-'']\<rparr>)] = ''AG''"
    by (simp add: spec_copyText_def)
  have c: "fst (copySequence AlleleCons ?g) = ClipboardText ''AG''"
    using copySequence_selected_text[of ?g "''read1''" exampleRead _ 0 2 AlleleCons] 1 2 3 4 5
    by simp
  have d: "fst (copySequence AlleleCons (drag 0 [1, 2] 0 ''read1'' exampleGroup)) =
           fst (copySequence AlleleCons ?g)"
    using copySequence_selected_text[of _ _ _ _ _ _ AlleleCons exampleGroup _ 0 "[1]" 2 0 "''read1''" "[1]"]
    by simp
  from 1 2 3 c d show ?thesis by simp
qed
section \<open>Properties of the chromatogram\<close>

lemma foldl_js_max_low:
  "list_all is_fin xs \<Longrightarrow> acc = NegInf \<or> is_fin acc \<Longrightarrow>
   foldl js_max acc xs = NegInf \<or> is_fin (foldl js_max acc xs)"
proof (induction xs arbitrary: acc)
  case Nil
  then show ?case by simp
next
  case (Cons x xs)
  from Cons.prems obtain r where r: "x = Fin r" by (cases x) (simp_all add: is_fin_def)
  have "is_fin (js_max acc x)"
    using Cons.prems(2) by (cases acc) (simp_all add: r js_max_def is_fin_def)
  then show ?case using Cons.IH[of "js_max acc x"] Cons.prems(1) by simp
qed

lemma math_max_args_low:
  "list_all is_fin xs \<Longrightarrow> math_max_args xs = NegInf \<or> is_fin (math_max_args xs)"
  unfolding math_max_args_def by (rule foldl_js_max_low) simp_all

lemma js_max_low:
  "a = NegInf \<or> is_fin a \<Longrightarrow> b = NegInf \<or> is_fin b \<Longrightarrow>
   js_max a b = NegInf \<or> is_fin (js_max a b)"
  by (cases a; cases b) (simp_all add: js_max_def is_fin_def)

lemma js_max_ten:
  "a = NegInf \<or> is_fin a \<Longrightarrow> \<exists>m. js_max a (Fin 10) = Fin m \<and> 10 \<le> m"
  by (cases a) (simp_all add: js_max_def is_fin_def)

text \<open>
  Within the engine's bound the divisor is as the comment of \<^verbatim>\<open>maxAmplitude\<close> says: for a
  trace with finite samples and channels of at most \<open>argLimit\<close> samples (empty and all-zero
  channels included) it is a finite number of at least 10, and it is 100 without a trace.
\<close>

lemma maxAmplitude_within_limit:
  assumes "chartTrace ch = Some t" and "finiteTrace t"
    and "length (traceA t) \<le> argLimit" and "length (traceC t) \<le> argLimit"
    and "length (traceG t) \<le> argLimit" and "length (traceT t) \<le> argLimit"
  shows "\<exists>m. maxAmplitude argLimit ch = Inr (Fin m) \<and> 10 \<le> m"
proof -
  let ?a = "math_max_args (traceA t)" and ?c = "math_max_args (traceC t)"
  let ?g = "math_max_args (traceG t)" and ?t = "math_max_args (traceT t)"
  have l: "js_max (js_max (js_max (js_max NegInf ?a) ?c) ?g) ?t = NegInf \<or>
        is_fin (js_max (js_max (js_max (js_max NegInf ?a) ?c) ?g) ?t)"
    using assms(2) unfolding finiteTrace_def
    by (intro js_max_low math_max_args_low) simp_all
  have "maxAmplitude argLimit ch =
      Inr (js_max (js_max (js_max (js_max (js_max NegInf ?a) ?c) ?g) ?t) (Fin 10))"
    using assms(1,3-6) by (simp add: maxAmplitude_def math_max_def math_max_args_def)
  then show ?thesis using js_max_ten[OF l] by simp
qed

lemma maxAmplitude_no_trace: "chartTrace ch = None \<Longrightarrow> maxAmplitude argLimit ch = Inr (Fin 100)"
  by (simp add: maxAmplitude_def)

text \<open>
  Claim C10, at a long trace. With 130000 samples in channel A and an engine that takes
  125000 arguments, \<^verbatim>\<open>Math.max(...t.traceA)\<close> raises: \<open>maxAmplitude\<close> has no value, and
  \<open>tracePaths\<close>, which reads it, generates no path. The samples are finite, and the chart
  with two samples has the divisor 10.
\<close>

theorem maxAmplitude_long_trace_evaluation:
  "length (traceA longTrace) = 130000 \<and> finiteTrace longTrace \<and>
   maxAmplitude 125000 longChart = Inl RangeError \<and>
   tracePaths 125000 longChart = Inl RangeError \<and>
   maxAmplitude 125000 exampleChart = Inr (Fin 10) \<and>
   tracePaths 125000 exampleChart =
     Inr [[(''M'', Fin 0, Fin 100), (''L'', Fin 10, Fin 100)], [], [], []]"
proof -
  have 1: "length (traceA longTrace) = 130000" by (simp add: longTrace_def)
  have 2: "finiteTrace longTrace"
    by (simp add: finiteTrace_def longTrace_def is_fin_def list_all_length)
  have 3: "maxAmplitude 125000 longChart = Inl RangeError"
    by (simp add: maxAmplitude_def longChart_def math_max_def 1)
  have 4: "tracePaths 125000 longChart = Inl RangeError"
    unfolding tracePaths_def 3 by (simp add: longChart_def)
  have 5: "maxAmplitude 125000 exampleChart = Inr (Fin 10)"
    by (simp add: maxAmplitude_def exampleChart_def math_max_def math_max_args_def js_max_def)
  have 6: "tracePaths 125000 exampleChart =
     Inr [[(''M'', Fin 0, Fin 100), (''L'', Fin 10, Fin 100)], [], [], []]"
    unfolding tracePaths_def 5
    by (simp add: exampleChart_def makePath_def pathPoint_def js_sub_def Let_def)
  from 1 2 3 4 5 6 show ?thesis by (intro conjI)
qed

section \<open>Degradation on missing data\<close>

lemma slotCells_absent:
  "map_of al (g + 1) = None \<Longrightarrow> c \<in> set (slotCells row al dm hl sel g) \<Longrightarrow> char c = ''-''"
  by (auto simp: slotCells_def mkCell_def Let_def consCharAt_def altCharAt_def)

lemma sampleAt_missing:
  "sampleAt samples None = Fin 0"
  "js_nth samples i = None \<Longrightarrow> sampleAt samples (Some i) = Fin 0"
  by (simp_all add: sampleAt_def)

lemma centerOnIndex_out_of_range:
  "chartTrace ch = Some t \<Longrightarrow> baseIndex < 0 \<or> baseIndex \<ge> int (length (peakLocations t)) \<Longrightarrow>
   centerOnIndex baseIndex ch = ch"
  by (auto simp: centerOnIndex_def Let_def)

lemma handleContextMenu_missing:
  "handleContextMenu idx sp1 sp2 cx cy None grp = grp"
  "findEntry rid grp = None \<Longrightarrow> handleContextMenu idx sp1 sp2 cx cy (Some rid) grp = grp"
  "findEntry rid grp = Some e \<Longrightarrow> trace e = None \<Longrightarrow>
     handleContextMenu idx sp1 sp2 cx cy (Some rid) grp = grp"
  by (simp_all add: handleContextMenu_def)

text \<open>
  Claim C9, at an out-of-range index of a highlight. \<open>centerOnIndex\<close> tests its index and
  returns the chart unchanged for base 7 of a read with three bases (index 6). For the
  same base \<open>highlightIndices\<close> does not test: it stores the highlight and asks the
  container to scroll to \<^verbatim>\<open>undefined * zoomX - containerWidth / 2\<close>, which is NaN, and
  \<open>highlights\<close> then places the marker at the coordinate NaN.
\<close>

theorem highlightIndices_out_of_range_evaluation:
  "chartTrace exampleChart =
     Some \<lparr>traceA = [Fin 0, Fin 0], traceC = [], traceG = [], traceT = [],
           peakLocations = [4, 9, 15]\<rparr> \<and>
   hcPos exampleHighlight = 7 \<and>
   centerOnIndex (hcPos exampleHighlight - 1) exampleChart = exampleChart \<and>
   highlightIndices [exampleHighlight] exampleChart =
     exampleChart\<lparr>highlightConfigs := [exampleHighlight], scrollRequest := Some NaN\<rparr> \<and>
   highlightIndices [exampleHighlight] exampleChart \<noteq> exampleChart \<and>
   highlights (highlightIndices [exampleHighlight] exampleChart) =
     [\<lparr>hlX = NaN, hlColor = ''rgba(255, 0, 0, 0.8)'', hlLabel = Some ''1''\<rparr>]"
proof -
  have 1: "chartTrace exampleChart =
     Some \<lparr>traceA = [Fin 0, Fin 0], traceC = [], traceG = [], traceT = [],
           peakLocations = [4, 9, 15]\<rparr>"
    by (simp add: exampleChart_def)
  have 2: "hcPos exampleHighlight = 7" by (simp add: exampleHighlight_def)
  have 3: "centerOnIndex (hcPos exampleHighlight - 1) exampleChart = exampleChart"
    by (rule centerOnIndex_out_of_range[OF 1]) (simp add: 2)
  have 4: "highlightIndices [exampleHighlight] exampleChart =
     exampleChart\<lparr>highlightConfigs := [exampleHighlight], scrollRequest := Some NaN\<rparr>"
    by (simp add: highlightIndices_def centerOnX_def peakX_def js_nth_def exampleHighlight_def
        exampleChart_def js_sub_def Let_def)
  have 5: "highlightIndices [exampleHighlight] exampleChart \<noteq> exampleChart"
    unfolding 4 by (simp add: exampleChart_def)
  have 6: "highlights (highlightIndices [exampleHighlight] exampleChart) =
     [\<lparr>hlX = NaN, hlColor = ''rgba(255, 0, 0, 0.8)'', hlLabel = Some ''1''\<rparr>]"
    unfolding 4 by (simp add: highlights_def peakX_def js_nth_def exampleChart_def exampleHighlight_def)
  from 1 2 3 4 5 6 show ?thesis by (intro conjI)
qed


end
